theory Spec2Isabelle
  imports Complex_Main
begin

section \<open>Neon Pinball: the game core of \<^verbatim>\<open>src/App.tsx\<close>\<close>

text \<open>
  The component keeps its game session in React state (score, highScore, ballsLeft,
  gameState, launchPower) and its entities in mutable refs (ball, flippers, bumpers, keys,
  trail). The model is one record of all of it, and one function per handler:
  \<open>handleKeyDown\<close>, \<open>handleKeyUp\<close> and \<open>gameLoop\<close> (one call of \<open>gameLoop\<close> is one tick).

  Modelling decisions, each of which is visible in the definitions below:
  \<^item> A JavaScript \<open>number\<close> that takes part in the physics is a \<open>real\<close>: \<open>Math.sqrt\<close>,
    \<open>Math.cos\<close>, \<open>Math.sin\<close>, \<open>Math.abs\<close>, \<open>Math.max\<close> and \<open>Math.min\<close> are the real functions,
    \<open>Math.PI\<close> is \<open>pi\<close>. The rounding of IEEE doubles, signed zeros, infinities and NaN in the
    physics are not modelled.
  \<^item> The counters (score, ballsLeft, launchPower, bumper points) are integers. The high score
    is a \<open>number\<close> that may be NaN or infinite, because \<open>parseInt\<close> produces such values; a
    finite one is an integer, and it is a value of the program when it is a double.
  \<^item> A stored string is the list of its UTF-16 code units.
  \<^item> A state setter called with an updater (\<open>setScore(s => ...)\<close>) is applied within the tick
    that called it; the handlers see the committed state.
  \<^item> The particle list is written by \<open>addParticles\<close> (with \<open>Math.random\<close>) and by the particle
    update, and is read by the drawing code only; it is left out, as is the drawing code.
\<close>

subsection \<open>Numbers of the high score, \<open>parseInt\<close> and \<open>toString\<close>\<close>

type_synonym jsString = "nat list"

text \<open>The code units of a string of ASCII characters.\<close>

definition codeUnits :: "string \<Rightarrow> jsString" where
  "codeUnits str = map of_char str"

text \<open>
  The values the high score can take: NaN, an integer (\<open>+0\<close> and \<open>-0\<close> are one value: they print
  and compare alike), or an infinity.
\<close>

datatype number = NaN | Num int | PosInfinity | NegInfinity

text \<open>\<open>Math.max(a, b)\<close>: NaN if either argument is NaN, else the larger one.\<close>

fun Math_max :: "number \<Rightarrow> number \<Rightarrow> number" where
  "Math_max NaN b = NaN"
| "Math_max a NaN = NaN"
| "Math_max PosInfinity b = PosInfinity"
| "Math_max a PosInfinity = PosInfinity"
| "Math_max NegInfinity b = b"
| "Math_max a NegInfinity = a"
| "Math_max (Num a) (Num b) = Num (max a b)"

text \<open>White space and line terminators of ECMA-262, which \<open>parseInt\<close> strips from the start.\<close>

definition isWhiteSpace :: "nat \<Rightarrow> bool" where
  "isWhiteSpace u \<longleftrightarrow>
     u \<in> {0x0009, 0x000A, 0x000B, 0x000C, 0x000D, 0x0020, 0x00A0, 0x1680, 0x2028, 0x2029,
           0x202F, 0x205F, 0x3000, 0xFEFF} \<or> (0x2000 \<le> u \<and> u \<le> 0x200A)"

text \<open>The value of a code unit as a digit, for radices up to 36.\<close>

definition digitVal :: "nat \<Rightarrow> nat option" where
  "digitVal u =
     (if 48 \<le> u \<and> u \<le> 57 then Some (u - 48)
      else if 97 \<le> u \<and> u \<le> 122 then Some (u - 87)
      else if 65 \<le> u \<and> u \<le> 90 then Some (u - 55)
      else None)"

definition isRadixDigit :: "nat \<Rightarrow> nat \<Rightarrow> bool" where
  "isRadixDigit R u = (case digitVal u of None \<Rightarrow> False | Some d \<Rightarrow> d < R)"

definition radixValue :: "nat \<Rightarrow> jsString \<Rightarrow> nat" where
  "radixValue R Z = foldl (\<lambda>acc u. acc * R + the (digitVal u)) 0 Z"

text \<open>
  A natural number as a double: itself below \<open>2\<^sup>5\<^sup>3\<close>, else rounded to 53 significant bits, ties
  to even; \<open>None\<close> is the overflow to infinity.
\<close>

function bitLength :: "nat \<Rightarrow> nat" where
  "bitLength m = (if m = 0 then 0 else Suc (bitLength (m div 2)))"
  by pat_completeness auto
termination
  by (relation "measure id") auto

declare bitLength.simps [simp del]

definition roundToDouble :: "nat \<Rightarrow> nat option" where
  "roundToDouble m =
     (if m < 2 ^ 53 then Some m
      else (let e = bitLength m - 53;
                q = m div 2 ^ e;
                r = m mod 2 ^ e;
                q' = (if 2 ^ e < 2 * r \<or> (2 * r = 2 ^ e \<and> odd q) then q + 1 else q);
                v = q' * 2 ^ e
            in if 2 ^ 1024 \<le> v then None else Some v))"

definition toNumber :: "int \<Rightarrow> nat \<Rightarrow> number" where
  "toNumber sign mathInt =
     (case roundToDouble mathInt of
        None \<Rightarrow> if sign < 0 then NegInfinity else PosInfinity
      | Some v \<Rightarrow> Num (sign * int v))"

text \<open>
  \<open>parseInt(string)\<close> with no radix, after ECMA-262: strip leading white space, read a sign,
  strip a \<open>0x\<close>/\<open>0X\<close> prefix (radix 16, else 10), take the longest prefix of digits; no digit gives
  NaN, else the value of the digits as a double. (The standard lets an implementation read the
  decimal digits after the 20th as zeros; here all digits count.)
\<close>

definition parseInt :: "jsString \<Rightarrow> number" where
  "parseInt inputString =
     (let S = dropWhile isWhiteSpace inputString;
          sign = (if S \<noteq> [] \<and> hd S = 0x2D then - 1 else 1 :: int);
          S1 = (if S \<noteq> [] \<and> (hd S = 0x2B \<or> hd S = 0x2D) then tl S else S);
          hex = (2 \<le> length S1 \<and> (take 2 S1 = codeUnits ''0x'' \<or> take 2 S1 = codeUnits ''0X''));
          R = (if hex then 16 else 10 :: nat);
          S2 = (if hex then drop 2 S1 else S1);
          Z = takeWhile (isRadixDigit R) S2
      in if Z = [] then NaN else toNumber sign (radixValue R Z))"

definition digitChar :: "nat \<Rightarrow> char" where
  "digitChar d = char_of (48 + d)"

function digits :: "nat \<Rightarrow> string" where
  "digits n = (if n < 10 then [digitChar n] else digits (n div 10) @ [digitChar (n mod 10)])"
  by pat_completeness auto
termination
  by (relation "measure id") auto

declare digits.simps [simp del]

text \<open>
  \<open>Number.prototype.toString()\<close>, after ECMA-262. A double is printed with as few significant
  digits as read back as the same double: \<open>shortestAt x e\<close> looks for a multiple of \<open>10\<^sup>e\<close> that
  rounds to \<open>x\<close>, the largest \<open>e\<close> first, and takes the nearer of the two neighbours of \<open>x\<close>. Below
  \<open>10\<^sup>2\<^sup>1\<close> the digits are written out, from there on in exponent form.
\<close>

fun shortestAt :: "nat \<Rightarrow> nat \<Rightarrow> nat" where
  "shortestAt x 0 = x"
| "shortestAt x (Suc e) =
     (let p = 10 ^ Suc e;
          lo = (x div p) * p;
          hi = lo + p;
          okLo = (roundToDouble lo = Some x);
          okHi = (roundToDouble hi = Some x)
      in if okLo \<and> okHi
         then (if hi - x < x - lo \<or> (hi - x = x - lo \<and> odd (x div p)) then hi else lo)
         else if okLo then lo
         else if okHi then hi
         else shortestAt x e)"

definition shortest :: "nat \<Rightarrow> nat" where
  "shortest x = (if x < 2 ^ 53 then x else shortestAt x (length (digits x) - 1))"

definition exponentForm :: "nat \<Rightarrow> string" where
  "exponentForm v =
     (let ds = digits v;
          sig = rev (dropWhile (\<lambda>c. c = CHR ''0'') (rev ds));
          ex = ''e+'' @ digits (length ds - 1)
      in if length sig \<le> 1 then sig @ ex else hd sig # CHR ''.'' # tl sig @ ex)"

definition natToString :: "nat \<Rightarrow> string" where
  "natToString x = (let v = shortest x in if v < 10 ^ 21 then digits v else exponentForm v)"

fun toString :: "number \<Rightarrow> jsString" where
  "toString NaN = codeUnits ''NaN''"
| "toString PosInfinity = codeUnits ''Infinity''"
| "toString NegInfinity = codeUnits ''-Infinity''"
| "toString (Num n) =
     codeUnits (if n < 0 then CHR ''-'' # natToString (nat (- n)) else natToString (nat n))"

text \<open>
  The initializer of \<open>highScore\<close>: \<open>saved ? parseInt(saved) : 0\<close>, where \<open>saved\<close> is
  \<open>localStorage.getItem('pinball-highscore')\<close>: \<open>null\<close> (here \<open>None\<close>) or a string. The empty
  string is falsy.
\<close>

definition highScoreInit :: "jsString option \<Rightarrow> number" where
  "highScoreInit saved =
     (case saved of
        None \<Rightarrow> Num 0
      | Some str \<Rightarrow> if str \<noteq> [] then parseInt str else Num 0)"

subsection \<open>Entities\<close>

record Ball =
  ball_x :: real
  ball_y :: real
  ball_vx :: real
  ball_vy :: real
  ball_radius :: real

record Bumper =
  bumper_x :: real
  bumper_y :: real
  bumper_radius :: real
  bumper_points :: int
  bumper_hit :: bool
  bumper_color :: string

datatype Side = Left | Right

record Flipper =
  flipper_x :: real
  flipper_y :: real
  flipper_length :: real
  flipper_angle :: real
  flipper_targetAngle :: real
  flipper_side :: Side

record TrailPoint =
  trail_x :: real
  trail_y :: real
  trail_alpha :: real

datatype GameState = Ready | Playing | Launching | Gameover

definition GRAVITY :: real where "GRAVITY = 0.15"
definition FRICTION :: real where "FRICTION = 0.995"
definition BALL_RADIUS :: real where "BALL_RADIUS = 10"
definition FLIPPER_SPEED :: real where "FLIPPER_SPEED = 0.35"

record Game =
  score :: int
  highScore :: number
  ballsLeft :: int
  gameState :: GameState
  launchPower :: int
  ball :: Ball
  flippers :: "Flipper list"
  bumpers :: "Bumper list"
  keys :: "string set"
  trail :: "TrailPoint list"
  storage :: "jsString option"

definition initialFlippers :: "Flipper list" where
  "initialFlippers =
     [\<lparr>flipper_x = 120, flipper_y = 680, flipper_length = 70, flipper_angle = 0.4,
       flipper_targetAngle = 0.4, flipper_side = Left\<rparr>,
      \<lparr>flipper_x = 280, flipper_y = 680, flipper_length = 70, flipper_angle = pi - 0.4,
       flipper_targetAngle = pi - 0.4, flipper_side = Right\<rparr>]"

definition initialBumpers :: "Bumper list" where
  "initialBumpers =
     [\<lparr>bumper_x = 200, bumper_y = 200, bumper_radius = 30, bumper_points = 100,
       bumper_hit = False, bumper_color = ''#ff00ff''\<rparr>,
      \<lparr>bumper_x = 120, bumper_y = 300, bumper_radius = 25, bumper_points = 75,
       bumper_hit = False, bumper_color = ''#00ffff''\<rparr>,
      \<lparr>bumper_x = 280, bumper_y = 300, bumper_radius = 25, bumper_points = 75,
       bumper_hit = False, bumper_color = ''#00ffff''\<rparr>,
      \<lparr>bumper_x = 200, bumper_y = 400, bumper_radius = 20, bumper_points = 50,
       bumper_hit = False, bumper_color = ''#ffff00''\<rparr>,
      \<lparr>bumper_x = 100, bumper_y = 450, bumper_radius = 20, bumper_points = 50,
       bumper_hit = False, bumper_color = ''#ff00aa''\<rparr>,
      \<lparr>bumper_x = 300, bumper_y = 450, bumper_radius = 20, bumper_points = 50,
       bumper_hit = False, bumper_color = ''#ff00aa''\<rparr>]"

text \<open>The state of the component when it mounts; \<open>saved\<close> is what the store holds.\<close>

definition initialGame :: "jsString option \<Rightarrow> Game" where
  "initialGame saved =
     \<lparr>score = 0, highScore = highScoreInit saved, ballsLeft = 3, gameState = Ready,
      launchPower = 0,
      ball = \<lparr>ball_x = 380, ball_y = 700, ball_vx = 0, ball_vy = 0, ball_radius = BALL_RADIUS\<rparr>,
      flippers = initialFlippers, bumpers = initialBumpers, keys = {}, trail = [],
      storage = saved\<rparr>"

subsection \<open>\<open>Math.atan2\<close> on the reals\<close>

text \<open>\<open>Math.atan2(y, x)\<close>: the angle of the point \<open>(x, y)\<close> in \<open>(-pi, pi]\<close>, and 0 at the origin.\<close>

definition atan2 :: "real \<Rightarrow> real \<Rightarrow> real" where
  "atan2 y x =
     (if 0 < x then arctan (y / x)
      else if x < 0 then (if 0 \<le> y then arctan (y / x) + pi else arctan (y / x) - pi)
      else if 0 < y then pi / 2
      else if y < 0 then - pi / 2
      else 0)"

subsection \<open>Handlers outside the loop\<close>

text \<open>\<open>resetBall\<close>: a new ball at the launch position, state \<open>launching\<close>, no launch power.\<close>

definition resetBall :: "Game \<Rightarrow> Game" where
  "resetBall g =
     g\<lparr>ball := \<lparr>ball_x = 380, ball_y = 650, ball_vx = 0, ball_vy = 0, ball_radius = BALL_RADIUS\<rparr>,
       gameState := Launching,
       launchPower := 0\<rparr>"

definition startGame :: "Game \<Rightarrow> Game" where
  "startGame g = resetBall (g\<lparr>score := 0, ballsLeft := 3\<rparr>)"

text \<open>\<open>String.prototype.toLowerCase\<close> on ASCII.\<close>

definition toLowerCase :: "string \<Rightarrow> string" where
  "toLowerCase str =
     map (\<lambda>c. let n = (of_char c :: nat) in if 65 \<le> n \<and> n \<le> 90 then char_of (n + 32) else c) str"

text \<open>
  \<open>handleKeyDown\<close>: both tests read the \<open>gameState\<close> the handler was created with, so at most
  one of them starts a game.
\<close>

definition handleKeyDown :: "string \<Rightarrow> Game \<Rightarrow> Game" where
  "handleKeyDown key g =
     (let g1 = g\<lparr>keys := insert (toLowerCase key) (keys g)\<rparr>;
          g2 = (if key = '' '' \<and> gameState g = Ready then startGame g1 else g1)
      in if key = '' '' \<and> gameState g = Gameover then startGame g2 else g2)"

definition handleKeyUp :: "string \<Rightarrow> Game \<Rightarrow> Game" where
  "handleKeyUp key g =
     (let g1 = g\<lparr>keys := keys g - {toLowerCase key}\<rparr>
      in if key = '' '' \<and> gameState g = Launching \<and> launchPower g > 0
         then g1\<lparr>ball := (ball g1)\<lparr>ball_vy := - real_of_int (launchPower g) * 0.3, ball_vx := - 2\<rparr>,
                 gameState := Playing\<rparr>
         else g1)"

subsection \<open>The game loop, piece by piece\<close>

text \<open>Launch power: \<open>setLaunchPower(p => Math.min(p + 2, 100))\<close>.\<close>

definition updateLaunchPower :: "Game \<Rightarrow> Game" where
  "updateLaunchPower g =
     (if gameState g = Launching \<and> '' '' \<in> keys g
      then g\<lparr>launchPower := min (launchPower g + 2) 100\<rparr> else g)"

text \<open>Flippers: the target follows the keys, the angle eases towards the target.\<close>

definition updateFlipper :: "string set \<Rightarrow> Flipper \<Rightarrow> Flipper" where
  "updateFlipper ks flipper =
     (let f1 = (if flipper_side flipper = Left
                then flipper\<lparr>flipper_targetAngle :=
                       (if ''z'' \<in> ks \<or> ''arrowleft'' \<in> ks then - 0.5 else 0.4)\<rparr>
                else flipper\<lparr>flipper_targetAngle :=
                       (if ''/'' \<in> ks \<or> ''arrowright'' \<in> ks then pi + 0.5 else pi - 0.4)\<rparr>);
          diff = flipper_targetAngle f1 - flipper_angle f1
      in f1\<lparr>flipper_angle := flipper_angle f1 + diff * FLIPPER_SPEED\<rparr>)"

text \<open>Physics: gravity, friction, explicit Euler step.\<close>

definition physics :: "Ball \<Rightarrow> Ball" where
  "physics b =
     (let b1 = b\<lparr>ball_vy := ball_vy b + GRAVITY\<rparr>;
          b2 = b1\<lparr>ball_vx := ball_vx b1 * FRICTION\<rparr>;
          b3 = b2\<lparr>ball_vy := ball_vy b2 * FRICTION\<rparr>;
          b4 = b3\<lparr>ball_x := ball_x b3 + ball_vx b3\<rparr>
      in b4\<lparr>ball_y := ball_y b4 + ball_vy b4\<rparr>)"

text \<open>
  Trail: \<open>push\<close> the ball's position with alpha 1, \<open>shift\<close> once if there are more than 20
  points, then multiply every alpha by 0.9.
\<close>

definition updateTrail :: "Ball \<Rightarrow> TrailPoint list \<Rightarrow> TrailPoint list" where
  "updateTrail b tr =
     (let pushed = tr @ [\<lparr>trail_x = ball_x b, trail_y = ball_y b, trail_alpha = 1\<rparr>];
          shifted = (if length pushed > 20 then tl pushed else pushed)
      in map (\<lambda>t. t\<lparr>trail_alpha := trail_alpha t * 0.9\<rparr>) shifted)"

text \<open>Walls: three independent tests, in the source's order, each on the ball as it is then.\<close>

definition wallCollisions :: "Ball \<Rightarrow> Ball" where
  "wallCollisions b =
     (let b1 = (if ball_x b - ball_radius b < 20
                then b\<lparr>ball_x := 20 + ball_radius b, ball_vx := \<bar>ball_vx b\<bar> * 0.8\<rparr> else b);
          b2 = (if ball_x b1 + ball_radius b1 > 380
                then b1\<lparr>ball_x := 380 - ball_radius b1, ball_vx := - \<bar>ball_vx b1\<bar> * 0.8\<rparr> else b1)
      in if ball_y b2 - ball_radius b2 < 20
         then b2\<lparr>ball_y := 20 + ball_radius b2, ball_vy := \<bar>ball_vy b2\<bar> * 0.8\<rparr> else b2)"

text \<open>Bumpers: the overlap test and the correction of one bumper, then the loop.\<close>

definition bumperOverlap :: "Ball \<Rightarrow> Bumper \<Rightarrow> bool" where
  "bumperOverlap b bumper =
     (let dx = ball_x b - bumper_x bumper;
          dy = ball_y b - bumper_y bumper;
          dist = sqrt (dx * dx + dy * dy)
      in dist < ball_radius b + bumper_radius bumper)"

definition bumperBounce :: "Ball \<Rightarrow> Bumper \<Rightarrow> Ball" where
  "bumperBounce b bumper =
     (let dx = ball_x b - bumper_x bumper;
          dy = ball_y b - bumper_y bumper;
          angle = atan2 dy dx;
          speed = sqrt (ball_vx b * ball_vx b + ball_vy b * ball_vy b)
      in b\<lparr>ball_vx := cos angle * max (speed * 1.2) 8,
           ball_vy := sin angle * max (speed * 1.2) 8,
           ball_x := bumper_x bumper + cos angle * (ball_radius b + bumper_radius bumper + 1),
           ball_y := bumper_y bumper + sin angle * (ball_radius b + bumper_radius bumper + 1)\<rparr>)"

text \<open>
  \<open>bumpers.forEach\<close>: the ball and the score are threaded through; a bumper that is hit gets
  \<open>hit = true\<close> and its points are added (\<open>setScore(s => s + bumper.points)\<close>).
\<close>

fun bumperCollisions :: "Bumper list \<Rightarrow> Ball \<Rightarrow> int \<Rightarrow> Bumper list \<times> Ball \<times> int" where
  "bumperCollisions [] b sc = ([], b, sc)"
| "bumperCollisions (bumper # rest) b sc =
     (if bumperOverlap b bumper
      then (case bumperCollisions rest (bumperBounce b bumper) (sc + bumper_points bumper) of
              (rest', b', sc') \<Rightarrow> (bumper\<lparr>bumper_hit := True\<rparr> # rest', b', sc'))
      else (case bumperCollisions rest b sc of
              (rest', b', sc') \<Rightarrow> (bumper # rest', b', sc')))"

text \<open>
  Segments: \<open>t\<close> is the parameter of the closest point of the segment from \<open>(x1, y1)\<close> with
  direction \<open>(dx, dy)\<close>, as both the flipper test and \<open>checkAngledWall\<close> compute it.
\<close>

definition segmentDenominator :: "real \<Rightarrow> real \<Rightarrow> real" where
  "segmentDenominator dx dy = dx * dx + dy * dy"

definition segmentT :: "Ball \<Rightarrow> real \<Rightarrow> real \<Rightarrow> real \<Rightarrow> real \<Rightarrow> real" where
  "segmentT b x1 y1 dx dy =
     max 0 (min 1 (((ball_x b - x1) * dx + (ball_y b - y1) * dy) / segmentDenominator dx dy))"

definition flipperDx :: "Flipper \<Rightarrow> real" where
  "flipperDx flipper =
     (flipper_x flipper + cos (flipper_angle flipper) * flipper_length flipper) - flipper_x flipper"

definition flipperDy :: "Flipper \<Rightarrow> real" where
  "flipperDy flipper =
     (flipper_y flipper + sin (flipper_angle flipper) * flipper_length flipper) - flipper_y flipper"

definition flipperClosestX :: "Ball \<Rightarrow> Flipper \<Rightarrow> real" where
  "flipperClosestX b flipper =
     flipper_x flipper
       + segmentT b (flipper_x flipper) (flipper_y flipper) (flipperDx flipper) (flipperDy flipper)
         * flipperDx flipper"

definition flipperClosestY :: "Ball \<Rightarrow> Flipper \<Rightarrow> real" where
  "flipperClosestY b flipper =
     flipper_y flipper
       + segmentT b (flipper_x flipper) (flipper_y flipper) (flipperDx flipper) (flipperDy flipper)
         * flipperDy flipper"

definition flipperDist :: "Ball \<Rightarrow> Flipper \<Rightarrow> real" where
  "flipperDist b flipper =
     (let distX = ball_x b - flipperClosestX b flipper;
          distY = ball_y b - flipperClosestY b flipper
      in sqrt (distX * distX + distY * distY))"

definition flipperNormalAngle :: "Ball \<Rightarrow> Flipper \<Rightarrow> real" where
  "flipperNormalAngle b flipper =
     atan2 (ball_y b - flipperClosestY b flipper) (ball_x b - flipperClosestX b flipper)"

definition flipperBoost :: "Flipper \<Rightarrow> real" where
  "flipperBoost flipper =
     (let flipperMoving = \<bar>flipper_targetAngle flipper - flipper_angle flipper\<bar> > 0.1
      in if flipperMoving then 15 else 5)"

definition flipperCollision :: "Ball \<Rightarrow> Flipper \<Rightarrow> Ball" where
  "flipperCollision b flipper =
     (if flipperDist b flipper < ball_radius b + 8
      then (let normalAngle = flipperNormalAngle b flipper;
                boost = flipperBoost flipper
            in b\<lparr>ball_vx := cos normalAngle * boost,
                 ball_vy := sin normalAngle * boost - 3,
                 ball_x := flipperClosestX b flipper + cos normalAngle * (ball_radius b + 10),
                 ball_y := flipperClosestY b flipper + sin normalAngle * (ball_radius b + 10)\<rparr>)
      else b)"

text \<open>\<open>flippers.forEach\<close>: each flipper sees the ball as the one before left it.\<close>

definition flipperCollisions :: "Flipper list \<Rightarrow> Ball \<Rightarrow> Ball" where
  "flipperCollisions fs b = foldl flipperCollision b fs"

definition wallClosestX :: "Ball \<Rightarrow> real \<Rightarrow> real \<Rightarrow> real \<Rightarrow> real \<Rightarrow> real" where
  "wallClosestX b x1 y1 x2 y2 = x1 + segmentT b x1 y1 (x2 - x1) (y2 - y1) * (x2 - x1)"

definition wallClosestY :: "Ball \<Rightarrow> real \<Rightarrow> real \<Rightarrow> real \<Rightarrow> real \<Rightarrow> real" where
  "wallClosestY b x1 y1 x2 y2 = y1 + segmentT b x1 y1 (x2 - x1) (y2 - y1) * (y2 - y1)"

definition wallDist :: "Ball \<Rightarrow> real \<Rightarrow> real \<Rightarrow> real \<Rightarrow> real \<Rightarrow> real" where
  "wallDist b x1 y1 x2 y2 =
     (let distX = ball_x b - wallClosestX b x1 y1 x2 y2;
          distY = ball_y b - wallClosestY b x1 y1 x2 y2
      in sqrt (distX * distX + distY * distY))"

definition checkAngledWall :: "real \<Rightarrow> real \<Rightarrow> real \<Rightarrow> real \<Rightarrow> Ball \<Rightarrow> Ball" where
  "checkAngledWall x1 y1 x2 y2 b =
     (if wallDist b x1 y1 x2 y2 < ball_radius b + 3
      then (let closestX = wallClosestX b x1 y1 x2 y2;
                closestY = wallClosestY b x1 y1 x2 y2;
                normalAngle = atan2 (ball_y b - closestY) (ball_x b - closestX);
                speed = sqrt (ball_vx b * ball_vx b + ball_vy b * ball_vy b)
            in b\<lparr>ball_vx := cos normalAngle * speed * 0.7,
                 ball_vy := sin normalAngle * speed * 0.7,
                 ball_x := closestX + cos normalAngle * (ball_radius b + 5),
                 ball_y := closestY + sin normalAngle * (ball_radius b + 5)\<rparr>)
      else b)"

definition angledWalls :: "Ball \<Rightarrow> Ball" where
  "angledWalls b = checkAngledWall 380 550 300 650 (checkAngledWall 20 550 100 650 b)"

text \<open>
  The collision resolver of one playing tick, on the ball after integration: walls, bumpers,
  flippers, angled walls. It returns the bumpers (with their \<open>hit\<close> flags), the ball and the
  score.
\<close>

definition collisions :: "Bumper list \<Rightarrow> Flipper list \<Rightarrow> Ball \<Rightarrow> int \<Rightarrow> Bumper list \<times> Ball \<times> int" where
  "collisions bs fs b sc =
     (case bumperCollisions bs (wallCollisions b) sc of
        (bs', b', sc') \<Rightarrow> (bs', angledWalls (flipperCollisions fs b'), sc'))"

text \<open>
  Ball lost: the updater of \<open>setBallsLeft\<close>. \<open>closureScore\<close> is the \<open>score\<close> the loop was created
  with, which \<open>Math.max(hs, score)\<close> reads; the new high score is written to the store.
\<close>

definition ballLost :: "int \<Rightarrow> Game \<Rightarrow> Game" where
  "ballLost closureScore g =
     (let newBalls = ballsLeft g - 1;
          g1 = (if newBalls \<le> 0
                then (let newHigh = Math_max (highScore g) (Num closureScore)
                      in g\<lparr>gameState := Gameover, highScore := newHigh,
                           storage := Some (toString newHigh)\<rparr>)
                else resetBall g)
      in g1\<lparr>ballsLeft := newBalls\<rparr>)"

text \<open>The body of \<open>if (gameState === 'playing')\<close>.\<close>

definition playingTick :: "int \<Rightarrow> Game \<Rightarrow> Game" where
  "playingTick closureScore g =
     (let b = physics (ball g);
          tr = updateTrail b (trail g)
      in case collisions (bumpers g) (flippers g) b (score g) of
           (bs', b', sc') \<Rightarrow>
             (let g1 = g\<lparr>ball := b', trail := tr, bumpers := bs', score := sc'\<rparr>
              in if ball_y b' > 780 then ballLost closureScore g1 else g1))"

text \<open>One call of \<open>gameLoop\<close>, without the particle update and the drawing.\<close>

definition gameLoop :: "Game \<Rightarrow> Game" where
  "gameLoop g =
     (let g1 = updateLaunchPower g;
          g2 = g1\<lparr>flippers := map (updateFlipper (keys g1)) (flippers g1)\<rparr>
      in if gameState g = Playing then playingTick (score g) g2 else g2)"

text \<open>The callback of \<open>setTimeout(() => bumper.hit = false, 100)\<close> for the bumper at index \<open>i\<close>.\<close>

definition hitTimeout :: "nat \<Rightarrow> Game \<Rightarrow> Game" where
  "hitTimeout i g =
     (if i < length (bumpers g)
      then g\<lparr>bumpers := (bumpers g)[i := (bumpers g ! i)\<lparr>bumper_hit := False\<rparr>]\<rparr> else g)"

subsection \<open>The component as a transition system\<close>

datatype Event = KeyDown string | KeyUp string | Tick | HitTimeout nat

fun step :: "Event \<Rightarrow> Game \<Rightarrow> Game" where
  "step (KeyDown key) g = handleKeyDown key g"
| "step (KeyUp key) g = handleKeyUp key g"
| "step Tick g = gameLoop g"
| "step (HitTimeout i) g = hitTimeout i g"

inductive reachable :: "Game \<Rightarrow> bool" where
  mount: "reachable (initialGame saved)"
| event: "reachable g \<Longrightarrow> reachable (step e g)"

text \<open>A ball-lost event: a tick of a playing game whose resolver leaves the ball at \<open>y > 780\<close>.\<close>

definition resolvedBall :: "Game \<Rightarrow> Ball" where
  "resolvedBall g =
     fst (snd (collisions (bumpers g) (map (updateFlipper (keys g)) (flippers g))
                 (physics (ball g)) (score g)))"

text \<open>The ball of the same tick after walls, bumpers and flippers, before the angled walls.\<close>

definition beforeAngledWalls :: "Game \<Rightarrow> Ball" where
  "beforeAngledWalls g =
     (case bumperCollisions (bumpers g) (wallCollisions (physics (ball g))) (score g) of
        (bs', b', sc') \<Rightarrow> flipperCollisions (map (updateFlipper (keys g)) (flippers g)) b')"

text \<open>
  The ball of the same tick after walls and bumpers, as the first flipper sees it, and the
  flippers of the tick, after their update.
\<close>

definition afterBumpers :: "Game \<Rightarrow> Ball" where
  "afterBumpers g =
     fst (snd (bumperCollisions (bumpers g) (wallCollisions (physics (ball g))) (score g)))"

definition tickFlippers :: "Game \<Rightarrow> Flipper list" where
  "tickFlippers g = map (updateFlipper (keys g)) (flippers g)"

definition ballLostEvent :: "Event \<Rightarrow> Game \<Rightarrow> bool" where
  "ballLostEvent e g \<longleftrightarrow> e = Tick \<and> gameState g = Playing \<and> ball_y (resolvedBall g) > 780"

definition startEvent :: "Event \<Rightarrow> Game \<Rightarrow> bool" where
  "startEvent e g \<longleftrightarrow> e = KeyDown '' '' \<and> (gameState g = Ready \<or> gameState g = Gameover)"

subsection \<open>What stays fixed, and what the session keeps\<close>

text \<open>
  The loop writes only the \<open>hit\<close> flag of a bumper and the two angles of a flipper, and every
  ball has the radius \<open>BALL_RADIUS\<close>: the table keeps its geometry.
\<close>

definition bumperGeometry :: "Bumper \<Rightarrow> real \<times> real \<times> real \<times> int" where
  "bumperGeometry bumper =
     (bumper_x bumper, bumper_y bumper, bumper_radius bumper, bumper_points bumper)"

definition flipperGeometry :: "Flipper \<Rightarrow> real \<times> real \<times> real \<times> Side" where
  "flipperGeometry flipper =
     (flipper_x flipper, flipper_y flipper, flipper_length flipper, flipper_side flipper)"

definition tableInv :: "Game \<Rightarrow> bool" where
  "tableInv g \<longleftrightarrow>
     ball_radius (ball g) = BALL_RADIUS \<and>
     map bumperGeometry (bumpers g) = map bumperGeometry initialBumpers \<and>
     map flipperGeometry (flippers g) = map flipperGeometry initialFlippers"

definition sessionInv :: "Game \<Rightarrow> bool" where
  "sessionInv g \<longleftrightarrow>
     0 \<le> launchPower g \<and> launchPower g \<le> 100 \<and> length (trail g) \<le> 20 \<and>
     (case gameState g of
        Ready \<Rightarrow> ballsLeft g = 3
      | Gameover \<Rightarrow> ballsLeft g = 0
      | _ \<Rightarrow> 1 \<le> ballsLeft g \<and> ballsLeft g \<le> 3)"

subsection \<open>An example run\<close>

text \<open>Space down, one tick, space up: a game that has just launched its first ball.\<close>

definition launchedGame :: Game where
  "launchedGame = step (KeyUp '' '') (step Tick (step (KeyDown '' '') (initialGame None)))"

text \<open>
  The left flipper key goes down in that game while a ball lies up and to the left of the
  left flipper's pivot, 15 away from it.
\<close>

definition swingingGame :: Game where
  "swingingGame =
     (handleKeyDown ''z'' launchedGame)
       \<lparr>ball := \<lparr>ball_x = 111, ball_y = 668, ball_vx = 0, ball_vy = - 0.15, ball_radius = 10\<rparr>\<rparr>"

text \<open>
  A ball that comes to rest (after gravity) 39 below the centre of the top bumper, whose
  radius is 30: the scenario of the spec, at distance \<open>radius + bumper.radius - 1\<close>.
\<close>

definition restingOnBumper :: Game where
  "restingOnBumper =
     launchedGame\<lparr>ball := \<lparr>ball_x = 200, ball_y = 239, ball_vx = 0, ball_vy = - 0.15, ball_radius = 10\<rparr>\<rparr>"

text \<open>The last ball, about to pass \<open>y = 780\<close> between the flippers, with 250 points scored.\<close>

definition drainingGame :: Game where
  "drainingGame =
     launchedGame\<lparr>ball := \<lparr>ball_x = 200, ball_y = 779, ball_vx = 0, ball_vy = 6, ball_radius = 10\<rparr>,
                  score := 250, ballsLeft := 1\<rparr>"

text \<open>
  Space held for 45 ticks and released (launch power 90), then two playing ticks: the state
  in which the third playing tick starts.
\<close>

definition power90Released :: Game where
  "power90Released = handleKeyUp '' '' ((gameLoop ^^ 45) (handleKeyDown '' '' (initialGame None)))"

definition power90Game :: Game where
  "power90Game = (gameLoop ^^ 2) power90Released"

section \<open>Lemmas\<close>

subsection \<open>\<open>parseInt\<close> reads back what \<open>toString\<close> wrote\<close>

lemma of_char_digitChar: "d < 10 \<Longrightarrow> (of_char (digitChar d) :: nat) = 48 + d"
  by (simp add: digitChar_def)

lemma digits_nonempty: "digits n \<noteq> []"
  by (subst digits.simps) simp

lemma digits_chars: "c \<in> set (digits n) \<Longrightarrow> \<exists>d<10. c = digitChar d"
proof (induction n arbitrary: c rule: digits.induct)
  case (1 n)
  show ?case
  proof (cases "n < 10")
    case True
    with "1.prems" show ?thesis by (subst (asm) digits.simps) auto
  next
    case False
    from "1.prems" have "c \<in> set (digits (n div 10)) \<or> c = digitChar (n mod 10)"
      using False by (subst (asm) digits.simps) auto
    then show ?thesis
    proof
      assume "c \<in> set (digits (n div 10))"
      then show ?thesis using "1.IH" False by blast
    next
      assume "c = digitChar (n mod 10)"
      moreover have "n mod 10 < 10" by simp
      ultimately show ?thesis by blast
    qed
  qed
qed

lemma digit_units: "u \<in> set (codeUnits (digits n)) \<Longrightarrow> 48 \<le> u \<and> u \<le> 57"
proof -
  assume "u \<in> set (codeUnits (digits n))"
  then obtain c where c: "c \<in> set (digits n)" "u = of_char c"
    by (auto simp: codeUnits_def)
  then obtain d where "d < 10" "c = digitChar d" using digits_chars by blast
  then show ?thesis using c(2) of_char_digitChar [of d] by simp
qed

lemma codeUnits_snoc: "codeUnits (cs @ [c]) = codeUnits cs @ [of_char c]"
  by (simp add: codeUnits_def)

lemma radixValue_snoc:
  "radixValue R (Z @ [u]) = radixValue R Z * R + the (digitVal u)"
  by (simp add: radixValue_def)

lemma digitVal_digitChar: "d < 10 \<Longrightarrow> digitVal (of_char (digitChar d)) = Some d"
  by (simp add: digitVal_def of_char_digitChar)

lemma radixValue_digits: "radixValue 10 (codeUnits (digits n)) = n"
proof (induction n rule: digits.induct)
  case (1 n)
  show ?case
  proof (cases "n < 10")
    case True
    then show ?thesis
      by (subst digits.simps) (simp add: radixValue_def codeUnits_def digitVal_digitChar)
  next
    case False
    then have "radixValue 10 (codeUnits (digits n))
                 = radixValue 10 (codeUnits (digits (n div 10))) * 10 + n mod 10"
      by (subst digits.simps) (simp add: codeUnits_snoc radixValue_snoc digitVal_digitChar)
    also have "\<dots> = n" using "1.IH" False by simp
    finally show ?thesis .
  qed
qed

lemma takeWhile_digits:
  "takeWhile (isRadixDigit 10) (codeUnits (digits n)) = codeUnits (digits n)"
proof -
  have "isRadixDigit 10 u" if "u \<in> set (codeUnits (digits n))" for u
    using digit_units [OF that] by (auto simp: isRadixDigit_def digitVal_def)
  then show ?thesis by (simp add: takeWhile_eq_all_conv)
qed

lemma codeUnits_digits_nonempty: "codeUnits (digits n) \<noteq> []"
  by (simp add: codeUnits_def digits_nonempty)

lemma digits_head: "48 \<le> hd (codeUnits (digits n)) \<and> hd (codeUnits (digits n)) \<le> 57"
  using digit_units [of "hd (codeUnits (digits n))" n] codeUnits_digits_nonempty [of n] by simp

lemma digits_not_hex:
  "take 2 (codeUnits (digits n)) \<noteq> codeUnits ''0x''"
  "take 2 (codeUnits (digits n)) \<noteq> codeUnits ''0X''"
proof -
  have x: "120 \<notin> set (codeUnits (digits n))" "88 \<notin> set (codeUnits (digits n))"
    using digit_units [of 120 n] digit_units [of 88 n] by auto
  show "take 2 (codeUnits (digits n)) \<noteq> codeUnits ''0x''"
  proof
    assume "take 2 (codeUnits (digits n)) = codeUnits ''0x''"
    then have "120 \<in> set (take 2 (codeUnits (digits n)))" by (simp add: codeUnits_def)
    then show False using x(1) by (meson in_set_takeD)
  qed
  show "take 2 (codeUnits (digits n)) \<noteq> codeUnits ''0X''"
  proof
    assume "take 2 (codeUnits (digits n)) = codeUnits ''0X''"
    then have "88 \<in> set (take 2 (codeUnits (digits n)))" by (simp add: codeUnits_def)
    then show False using x(2) by (meson in_set_takeD)
  qed
qed

lemma parseInt_digits: "parseInt (codeUnits (digits n)) = toNumber 1 n"
proof -
  note h = digits_head [of n]
  have ne: "codeUnits (digits n) \<noteq> []" by (rule codeUnits_digits_nonempty)
  have "\<not> isWhiteSpace (hd (codeUnits (digits n)))"
    using h by (auto simp: isWhiteSpace_def)
  then have w: "dropWhile isWhiteSpace (codeUnits (digits n)) = codeUnits (digits n)"
    using ne by (cases "codeUnits (digits n)") auto
  have s: "hd (codeUnits (digits n)) \<noteq> 0x2B" "hd (codeUnits (digits n)) \<noteq> 0x2D"
    using h by auto
  show ?thesis
    by (simp add: parseInt_def Let_def w s digits_not_hex takeWhile_digits ne radixValue_digits)
qed

lemma parseInt_minus_digits: "parseInt (codeUnits (CHR ''-'' # digits n)) = toNumber (- 1) n"
proof -
  have ne: "codeUnits (digits n) \<noteq> []" by (rule codeUnits_digits_nonempty)
  have c: "codeUnits (CHR ''-'' # digits n) = 0x2D # codeUnits (digits n)"
    by (simp add: codeUnits_def)
  have w: "\<not> isWhiteSpace 0x2D" by (simp add: isWhiteSpace_def)
  show ?thesis
    unfolding c
    by (simp add: parseInt_def Let_def w digits_not_hex takeWhile_digits ne radixValue_digits)
qed

lemma natToString_safe: "m < 2 ^ 53 \<Longrightarrow> natToString m = digits m"
proof -
  assume m: "m < 2 ^ 53"
  have "(2::nat) ^ 53 < 10 ^ 21" by simp
  then have "m < 10 ^ 21" using m by linarith
  then show ?thesis using m by (simp add: natToString_def shortest_def Let_def)
qed

lemma toNumber_safe: "m < 2 ^ 53 \<Longrightarrow> toNumber s m = Num (s * int m)"
  by (simp add: toNumber_def roundToDouble_def)

lemma parseInt_toString:
  assumes "\<bar>n\<bar> < 2 ^ 53"
  shows "parseInt (toString (Num n)) = Num n"
proof (cases "n < 0")
  case True
  have m: "nat (- n) < 2 ^ 53" using assms True by (simp add: nat_less_iff)
  show ?thesis
    using True by (simp add: natToString_safe [OF m] parseInt_minus_digits toNumber_safe [OF m])
next
  case False
  have m: "nat n < 2 ^ 53" using assms False by (simp add: nat_less_iff)
  show ?thesis
    using False by (simp add: natToString_safe [OF m] parseInt_digits toNumber_safe [OF m])
qed

lemma parseInt_NaN: "parseInt (codeUnits ''NaN'') = NaN"
  by (simp add: parseInt_def codeUnits_def isWhiteSpace_def isRadixDigit_def digitVal_def)

lemma toString_nonempty: "toString h \<noteq> []"
  by (cases h) (simp_all add: codeUnits_def natToString_def exponentForm_def Let_def digits_nonempty)

lemma highScoreInit_toString:
  "highScoreInit (Some (toString NaN)) = NaN"
  "\<bar>n\<bar> < 2 ^ 53 \<Longrightarrow> highScoreInit (Some (toString (Num n))) = Num n"
proof -
  show "highScoreInit (Some (toString NaN)) = NaN"
    by (simp add: highScoreInit_def parseInt_NaN) (simp add: codeUnits_def)
  assume "\<bar>n\<bar> < 2 ^ 53"
  then have "parseInt (toString (Num n)) = Num n" by (rule parseInt_toString)
  then show "highScoreInit (Some (toString (Num n))) = Num n"
    using toString_nonempty [of "Num n"] by (simp add: highScoreInit_def del: toString.simps)
qed

subsection \<open>Preservation lemmas\<close>

lemma physics_radius [simp]: "ball_radius (physics b) = ball_radius b"
  by (simp add: physics_def Let_def)

lemma wallCollisions_radius [simp]: "ball_radius (wallCollisions b) = ball_radius b"
  by (simp add: wallCollisions_def Let_def)

lemma bumperBounce_radius [simp]: "ball_radius (bumperBounce b bumper) = ball_radius b"
  by (simp add: bumperBounce_def Let_def)

lemma flipperCollision_radius [simp]: "ball_radius (flipperCollision b f) = ball_radius b"
  by (simp add: flipperCollision_def Let_def)

lemma checkAngledWall_radius [simp]: "ball_radius (checkAngledWall x1 y1 x2 y2 b) = ball_radius b"
  by (simp add: checkAngledWall_def Let_def)

lemma angledWalls_radius [simp]: "ball_radius (angledWalls b) = ball_radius b"
  by (simp add: angledWalls_def)

lemma flipperCollisions_radius [simp]: "ball_radius (flipperCollisions fs b) = ball_radius b"
  unfolding flipperCollisions_def by (induction fs arbitrary: b) simp_all

lemma bumperCollisions_radius:
  "bumperCollisions bs b sc = (bs', b', sc') \<Longrightarrow> ball_radius b' = ball_radius b"
  by (induction bs arbitrary: b sc bs' b' sc') (auto split: if_splits prod.splits)

lemma bumperCollisions_geometry:
  "bumperCollisions bs b sc = (bs', b', sc') \<Longrightarrow> map bumperGeometry bs' = map bumperGeometry bs"
  by (induction bs arbitrary: b sc bs' b' sc')
     (auto split: if_splits prod.splits simp: bumperGeometry_def)

lemma collisions_radius:
  "collisions bs fs b sc = (bs', b', sc') \<Longrightarrow> ball_radius b' = ball_radius b"
  by (auto simp: collisions_def split: prod.splits dest: bumperCollisions_radius)

lemma collisions_geometry:
  "collisions bs fs b sc = (bs', b', sc') \<Longrightarrow> map bumperGeometry bs' = map bumperGeometry bs"
  by (auto simp: collisions_def split: prod.splits dest: bumperCollisions_geometry)

lemma updateFlipper_geometry [simp]: "flipperGeometry (updateFlipper ks f) = flipperGeometry f"
  by (simp add: updateFlipper_def flipperGeometry_def Let_def)

lemma updateFlipper_geometry_comp [simp]:
  "flipperGeometry \<circ> updateFlipper ks = flipperGeometry"
  by (rule ext) simp

lemma tableInv_initial: "tableInv (initialGame saved)"
  by (simp add: tableInv_def initialGame_def)

lemma tableInv_resetBall: "tableInv g \<Longrightarrow> tableInv (resetBall g)"
  by (simp add: tableInv_def resetBall_def)

lemma tableInv_startGame: "tableInv g \<Longrightarrow> tableInv (startGame g)"
  by (simp add: tableInv_def startGame_def resetBall_def)

lemma tableInv_handleKeyDown: "tableInv g \<Longrightarrow> tableInv (handleKeyDown key g)"
  by (simp add: tableInv_def handleKeyDown_def startGame_def resetBall_def Let_def)

lemma tableInv_handleKeyUp: "tableInv g \<Longrightarrow> tableInv (handleKeyUp key g)"
  by (simp add: tableInv_def handleKeyUp_def Let_def)

lemma tableInv_ballLost: "tableInv g \<Longrightarrow> tableInv (ballLost cs g)"
  by (simp add: tableInv_def ballLost_def resetBall_def Let_def)

lemma tableInv_playingTick: "tableInv g \<Longrightarrow> tableInv (playingTick cs g)"
proof -
  assume inv: "tableInv g"
  obtain bs' b' sc' where c: "collisions (bumpers g) (flippers g) (physics (ball g)) (score g) = (bs', b', sc')"
    by (metis prod_cases3)
  have "tableInv (g\<lparr>ball := b', trail := updateTrail (physics (ball g)) (trail g), bumpers := bs', score := sc'\<rparr>)"
    using inv collisions_radius [OF c] collisions_geometry [OF c] by (simp add: tableInv_def)
  then show ?thesis
    using c by (simp add: playingTick_def Let_def tableInv_ballLost)
qed

lemma tableInv_gameLoop: "tableInv g \<Longrightarrow> tableInv (gameLoop g)"
proof -
  assume inv: "tableInv g"
  have "tableInv ((updateLaunchPower g)\<lparr>flippers := map (updateFlipper (keys (updateLaunchPower g))) (flippers (updateLaunchPower g))\<rparr>)"
    using inv by (simp add: tableInv_def updateLaunchPower_def)
  then show ?thesis
    by (simp add: gameLoop_def Let_def tableInv_playingTick)
qed

lemma tableInv_hitTimeout: "tableInv g \<Longrightarrow> tableInv (hitTimeout i g)"
  by (simp add: tableInv_def hitTimeout_def map_update bumperGeometry_def)
     (metis list_update_id map_update nth_map bumperGeometry_def)

lemma tableInv_step: "tableInv g \<Longrightarrow> tableInv (step e g)"
  by (cases e) (simp_all add: tableInv_handleKeyDown tableInv_handleKeyUp tableInv_gameLoop tableInv_hitTimeout)

subsection \<open>The session invariant\<close>

lemma length_updateTrail: "length (updateTrail b tr) = (if length tr < 20 then length tr + 1 else length tr)"
  by (simp add: updateTrail_def Let_def)

lemma sessionInv_initial: "sessionInv (initialGame saved)"
  by (simp add: sessionInv_def initialGame_def)

lemma sessionInv_startGame: "length (trail g) \<le> 20 \<Longrightarrow> sessionInv (startGame g)"
  by (simp add: sessionInv_def startGame_def resetBall_def)

lemma sessionInv_handleKeyDown: "sessionInv g \<Longrightarrow> sessionInv (handleKeyDown key g)"
  by (auto simp: sessionInv_def handleKeyDown_def startGame_def resetBall_def Let_def
           split: GameState.splits)

lemma sessionInv_handleKeyUp: "sessionInv g \<Longrightarrow> sessionInv (handleKeyUp key g)"
  by (auto simp: sessionInv_def handleKeyUp_def Let_def split: GameState.splits)

lemma sessionInv_hitTimeout: "sessionInv g \<Longrightarrow> sessionInv (hitTimeout i g)"
  by (auto simp: sessionInv_def hitTimeout_def split: GameState.splits)

lemma sessionInv_ballLost:
  "sessionInv g \<Longrightarrow> gameState g = Playing \<Longrightarrow> sessionInv (ballLost cs g)"
  by (auto simp: sessionInv_def ballLost_def resetBall_def Let_def)

lemma sessionInv_playingTick:
  assumes "sessionInv g" "gameState g = Playing"
  shows "sessionInv (playingTick cs g)"
proof -
  obtain bs' b' sc' where c: "collisions (bumpers g) (flippers g) (physics (ball g)) (score g) = (bs', b', sc')"
    by (metis prod_cases3)
  let ?g1 = "g\<lparr>ball := b', trail := updateTrail (physics (ball g)) (trail g), bumpers := bs', score := sc'\<rparr>"
  have 1: "sessionInv ?g1" "gameState ?g1 = Playing"
    using assms by (auto simp: sessionInv_def length_updateTrail)
  show ?thesis
    using c 1 sessionInv_ballLost [OF 1] by (simp add: playingTick_def Let_def)
qed

lemma sessionInv_gameLoop: "sessionInv g \<Longrightarrow> sessionInv (gameLoop g)"
proof -
  assume inv: "sessionInv g"
  let ?g2 = "(updateLaunchPower g)\<lparr>flippers := map (updateFlipper (keys (updateLaunchPower g))) (flippers (updateLaunchPower g))\<rparr>"
  have 2: "sessionInv ?g2" "gameState ?g2 = gameState g"
    using inv by (auto simp: sessionInv_def updateLaunchPower_def split: GameState.splits)
  show ?thesis
    using 2 sessionInv_playingTick [of ?g2 "score g"] by (simp add: gameLoop_def Let_def)
qed

lemma sessionInv_step: "sessionInv g \<Longrightarrow> sessionInv (step e g)"
  by (cases e)
     (simp_all add: sessionInv_handleKeyDown sessionInv_handleKeyUp sessionInv_gameLoop
        sessionInv_hitTimeout)

lemma reachable_tableInv: "reachable g \<Longrightarrow> tableInv g"
  by (induction rule: reachable.induct) (simp_all add: tableInv_initial tableInv_step)

lemma reachable_sessionInv: "reachable g \<Longrightarrow> sessionInv g"
  by (induction rule: reachable.induct) (simp_all add: sessionInv_initial sessionInv_step)

subsection \<open>What one tick does to the session\<close>

lemma gameLoop_not_playing:
  "gameState g \<noteq> Playing \<Longrightarrow>
   gameLoop g = (updateLaunchPower g)\<lparr>flippers := map (updateFlipper (keys g)) (flippers g)\<rparr>"
  by (simp add: gameLoop_def Let_def updateLaunchPower_def)

lemma gameLoop_playing:
  assumes "gameState g = Playing"
    and "collisions (bumpers g) (map (updateFlipper (keys g)) (flippers g)) (physics (ball g)) (score g)
           = (bs', b', sc')"
  shows "gameLoop g =
     (let g1 = g\<lparr>flippers := map (updateFlipper (keys g)) (flippers g), ball := b',
                  trail := updateTrail (physics (ball g)) (trail g), bumpers := bs', score := sc'\<rparr>
      in if ball_y b' > 780 then ballLost (score g) g1 else g1)"
  using assms by (simp add: gameLoop_def playingTick_def Let_def updateLaunchPower_def)

lemma resolvedBall_eq:
  "collisions (bumpers g) (map (updateFlipper (keys g)) (flippers g)) (physics (ball g)) (score g)
     = (bs', b', sc') \<Longrightarrow> resolvedBall g = b'"
  by (simp add: resolvedBall_def)

lemma ballsLeft_gameLoop:
  "ballsLeft (gameLoop g) = (if ballLostEvent Tick g then ballsLeft g - 1 else ballsLeft g)"
proof (cases "gameState g = Playing")
  case False
  then show ?thesis
    by (simp add: gameLoop_not_playing ballLostEvent_def updateLaunchPower_def)
next
  case True
  obtain bs' b' sc' where c:
    "collisions (bumpers g) (map (updateFlipper (keys g)) (flippers g)) (physics (ball g)) (score g)
       = (bs', b', sc')"
    by (metis prod_cases3)
  show ?thesis
    using True by (simp add: gameLoop_playing [OF True c] resolvedBall_eq [OF c] ballLostEvent_def
        ballLost_def Let_def)
qed

lemma ballsLeft_step:
  "ballsLeft (step e g) =
     (if ballLostEvent e g then ballsLeft g - 1 else if startEvent e g then 3 else ballsLeft g)"
proof (cases e)
  case (KeyDown key)
  then show ?thesis
    by (auto simp: ballLostEvent_def startEvent_def handleKeyDown_def startGame_def resetBall_def Let_def)
next
  case (KeyUp key)
  then show ?thesis
    by (simp add: ballLostEvent_def startEvent_def handleKeyUp_def Let_def)
next
  case Tick
  then show ?thesis
    by (simp add: ballsLeft_gameLoop startEvent_def)
next
  case (HitTimeout i)
  then show ?thesis
    by (simp add: ballLostEvent_def startEvent_def hitTimeout_def)
qed

lemma sessionInv_ballsLeft: "sessionInv g \<Longrightarrow> 0 \<le> ballsLeft g"
  by (auto simp: sessionInv_def split: GameState.splits)



subsection \<open>Launch\<close>

lemma launching_tick:
  assumes "gameState g = Launching" "'' '' \<in> keys g"
  shows "gameState (gameLoop g) = Launching" "'' '' \<in> keys (gameLoop g)"
    "launchPower (gameLoop g) = min (launchPower g + 2) 100"
  using assms by (simp_all add: gameLoop_not_playing updateLaunchPower_def)

lemma launching_ticks:
  assumes "gameState g = Launching" "'' '' \<in> keys g" "launchPower g = 0"
  shows "gameState ((gameLoop ^^ N) g) = Launching \<and> '' '' \<in> keys ((gameLoop ^^ N) g) \<and>
         launchPower ((gameLoop ^^ N) g) = min (2 * int N) 100"
proof (induction N)
  case 0
  then show ?case using assms by simp
next
  case (Suc N)
  then show ?case by (simp add: launching_tick) 
qed

text \<open>
  C5: in \<open>launching\<close> a tick with space held sets \<open>launchPower\<close> to \<open>min (launchPower + 2) 100\<close>, so
  \<open>N\<close> such ticks from power 0 give \<open>min (2 * N) 100\<close>; releasing space at power \<open>P > 0\<close> sets
  \<open>vy = - 0.3 * P\<close> and \<open>vx = - 2\<close> and moves the game to \<open>playing\<close>.
\<close>

theorem launch_charge_and_release:
  "(gameState g = Launching \<and> '' '' \<in> keys g \<longrightarrow>
      launchPower (gameLoop g) = min (launchPower g + 2) 100) \<and>
   (gameState g = Launching \<and> '' '' \<in> keys g \<and> launchPower g = 0 \<longrightarrow>
      launchPower ((gameLoop ^^ N) g) = min (2 * int N) 100) \<and>
   (gameState g = Launching \<and> launchPower g = P \<and> P > 0 \<longrightarrow>
      ball_vy (ball (handleKeyUp '' '' g)) = - 0.3 * real_of_int P \<and>
      ball_vx (ball (handleKeyUp '' '' g)) = - 2 \<and>
      gameState (handleKeyUp '' '' g) = Playing)"
  by (simp add: launching_tick launching_ticks handleKeyUp_def Let_def)


lemma space_lower [simp]: "toLowerCase '' '' = '' ''"
  by (simp add: toLowerCase_def)

lemma armed_fields:
  "gameState (handleKeyDown '' '' (initialGame None)) = Launching"
  "'' '' \<in> keys (handleKeyDown '' '' (initialGame None))"
  "launchPower (handleKeyDown '' '' (initialGame None)) = 0"
  by (simp_all add: handleKeyDown_def initialGame_def startGame_def resetBall_def Let_def)

lemma reachable_launchedGame: "reachable launchedGame"
  unfolding launchedGame_def by (intro reachable.event reachable.mount)

lemma launchedGame_fields:
  "gameState launchedGame = Playing"
  "trail launchedGame = []"
  "ball launchedGame = \<lparr>ball_x = 380, ball_y = 650, ball_vx = - 2, ball_vy = - 0.6, ball_radius = 10\<rparr>"
  by (simp_all add: launchedGame_def handleKeyUp_def gameLoop_not_playing updateLaunchPower_def
      handleKeyDown_def initialGame_def startGame_def resetBall_def Let_def BALL_RADIUS_def)

theorem launch_charge_and_release_witness:
  "gameState (handleKeyDown '' '' (initialGame None)) = Launching \<and>
   '' '' \<in> keys (handleKeyDown '' '' (initialGame None)) \<and>
   launchPower (handleKeyDown '' '' (initialGame None)) = 0 \<and>
   launchPower ((gameLoop ^^ 3) (handleKeyDown '' '' (initialGame None))) = 6 \<and>
   launchPower (gameLoop (handleKeyDown '' '' (initialGame None))) = 2 \<and>
   gameState (gameLoop (handleKeyDown '' '' (initialGame None))) = Launching \<and>
   ball_vy (ball (handleKeyUp '' '' (gameLoop (handleKeyDown '' '' (initialGame None))))) = - 0.6 \<and>
   ball_vx (ball (handleKeyUp '' '' (gameLoop (handleKeyDown '' '' (initialGame None))))) = - 2 \<and>
   gameState (handleKeyUp '' '' (gameLoop (handleKeyDown '' '' (initialGame None)))) = Playing"
proof -
  let ?g0 = "handleKeyDown '' '' (initialGame None)"
  have a: "gameState ?g0 = Launching" "'' '' \<in> keys ?g0" "launchPower ?g0 = 0"
    by (rule armed_fields)+
  have b: "gameState (gameLoop ?g0) = Launching" "launchPower (gameLoop ?g0) = 2"
    using a by (simp_all add: launching_tick)
  show ?thesis
    using launch_charge_and_release [of ?g0 3 0] launch_charge_and_release [of "gameLoop ?g0" 0 2] a b
    by simp
qed

text \<open>
  C10: a tick of a playing game appends one trail point, the ball's position after
  integration with alpha 1, drops the oldest point when that makes more than 20, and then
  multiplies every alpha by 0.9; the order is oldest first, and the trail never holds more
  than 20 points.
\<close>

theorem trail_update:
  assumes "reachable g" "gameState g = Playing"
  shows "trail (gameLoop g) =
           map (\<lambda>t. t\<lparr>trail_alpha := trail_alpha t * 0.9\<rparr>)
             ((if length (trail g) = 20 then tl (trail g) else trail g)
              @ [\<lparr>trail_x = ball_x (physics (ball g)), trail_y = ball_y (physics (ball g)),
                  trail_alpha = 1\<rparr>]) \<and>
         length (trail (gameLoop g)) \<le> 20"
proof -
  have len: "length (trail g) \<le> 20"
    using reachable_sessionInv [OF assms(1)] by (simp add: sessionInv_def)
  obtain bs' b' sc' where c:
    "collisions (bumpers g) (map (updateFlipper (keys g)) (flippers g)) (physics (ball g)) (score g)
       = (bs', b', sc')"
    by (metis prod_cases3)
  have t: "trail (gameLoop g) = updateTrail (physics (ball g)) (trail g)"
    by (simp add: gameLoop_playing [OF assms(2) c] Let_def ballLost_def resetBall_def)
  have "updateTrail (physics (ball g)) (trail g) =
           map (\<lambda>t. t\<lparr>trail_alpha := trail_alpha t * 0.9\<rparr>)
             ((if length (trail g) = 20 then tl (trail g) else trail g)
              @ [\<lparr>trail_x = ball_x (physics (ball g)), trail_y = ball_y (physics (ball g)),
                  trail_alpha = 1\<rparr>])"
    using len by (cases "trail g") (auto simp: updateTrail_def Let_def)
  moreover have "length (updateTrail (physics (ball g)) (trail g)) \<le> 20"
    using len by (simp add: length_updateTrail)
  ultimately show ?thesis using t by simp
qed

theorem trail_update_witness:
  "reachable launchedGame \<and> gameState launchedGame = Playing \<and>
   trail (gameLoop launchedGame) = [\<lparr>trail_x = 378.01, trail_y = 649.55225, trail_alpha = 0.9\<rparr>] \<and>
   length (trail (gameLoop launchedGame)) \<le> 20"
  using trail_update [OF reachable_launchedGame launchedGame_fields(1)]
  by (simp add: reachable_launchedGame launchedGame_fields physics_def Let_def GRAVITY_def FRICTION_def)

subsection \<open>Angles and distances\<close>

lemma sqrt_ge_abs1: "\<bar>dx\<bar> \<le> sqrt (dx * dx + dy * dy)"
  by (rule real_le_rsqrt) (simp add: power2_eq_square)

lemma sqrt_ge_abs2: "\<bar>dy\<bar> \<le> sqrt (dx * dx + dy * dy)"
  by (rule real_le_rsqrt) (simp add: power2_eq_square)

lemma scaled_unit_squares:
  fixes c s k :: real
  assumes "c * c + s * s = 1"
  shows "(c * k) * (c * k) + (s * k) * (s * k) = k * k"
proof -
  have "(c * k) * (c * k) + (s * k) * (s * k) = (c * c + s * s) * (k * k)"
    by (simp add: algebra_simps)
  then show ?thesis using assms by simp
qed

lemma sqrt_scaled_unit:
  fixes a k :: real
  assumes "0 \<le> k"
  shows "sqrt ((cos a * k) * (cos a * k) + (sin a * k) * (sin a * k)) = k"
proof -
  have "cos a * cos a + sin a * sin a = 1"
    using sin_cos_squared_add3 [of a] by (simp add: power2_eq_square)
  then have "(cos a * k) * (cos a * k) + (sin a * k) * (sin a * k) = k * k"
    by (rule scaled_unit_squares)
  then have "sqrt ((cos a * k) * (cos a * k) + (sin a * k) * (sin a * k)) = \<bar>k\<bar>"
    by simp
  then show ?thesis using assms by simp
qed

lemma abs_cos_mult_le: "\<bar>cos a * k\<bar> \<le> \<bar>k :: real\<bar>"
proof -
  have "\<bar>cos a * k\<bar> = \<bar>cos a\<bar> * \<bar>k\<bar>" by (simp add: abs_mult)
  also have "\<dots> \<le> 1 * \<bar>k\<bar>" by (rule mult_right_mono) simp_all
  finally show ?thesis by simp
qed

lemma abs_sin_mult_le: "\<bar>sin a * k\<bar> \<le> \<bar>k :: real\<bar>"
proof -
  have "\<bar>sin a * k\<bar> = \<bar>sin a\<bar> * \<bar>k\<bar>" by (simp add: abs_mult)
  also have "\<dots> \<le> 1 * \<bar>k\<bar>" by (rule mult_right_mono) simp_all
  finally show ?thesis by simp
qed

lemma cos_atan2:
  assumes "x \<noteq> 0 \<or> y \<noteq> 0"
  shows "cos (atan2 y x) = x / sqrt (x * x + y * y)"
proof -
  have pos: "x \<noteq> 0 \<Longrightarrow> sqrt (1 + (y / x)\<^sup>2) = sqrt (x * x + y * y) / \<bar>x\<bar>"
  proof -
    assume x: "x \<noteq> 0"
    have "1 + (y / x)\<^sup>2 = (x * x + y * y) / x\<^sup>2"
      using x by (simp add: power2_eq_square field_simps)
    then show ?thesis by (simp add: real_sqrt_divide)
  qed
  consider "0 < x" | "x < 0" | "x = 0" "0 < y" | "x = 0" "y < 0"
    using assms by fastforce
  then show ?thesis
  proof cases
    case 1
    then show ?thesis using pos by (simp add: atan2_def cos_arctan)
  next
    case 2
    then show ?thesis using pos by (simp add: atan2_def cos_arctan)
  next
    case 3
    then show ?thesis by (simp add: atan2_def)
  next
    case 4
    then show ?thesis by (simp add: atan2_def)
  qed
qed

lemma sin_atan2:
  assumes "x \<noteq> 0 \<or> y \<noteq> 0"
  shows "sin (atan2 y x) = y / sqrt (x * x + y * y)"
proof -
  have pos: "x \<noteq> 0 \<Longrightarrow> sqrt (1 + (y / x)\<^sup>2) = sqrt (x * x + y * y) / \<bar>x\<bar>"
  proof -
    assume x: "x \<noteq> 0"
    have "1 + (y / x)\<^sup>2 = (x * x + y * y) / x\<^sup>2"
      using x by (simp add: power2_eq_square field_simps)
    then show ?thesis by (simp add: real_sqrt_divide)
  qed
  consider "0 < x" | "x < 0" | "x = 0" "0 < y" | "x = 0" "y < 0"
    using assms by fastforce
  then show ?thesis
  proof cases
    case 1
    then show ?thesis using pos by (simp add: atan2_def sin_arctan)
  next
    case 2
    then show ?thesis using pos by (simp add: atan2_def sin_arctan)
  next
    case 3
    then show ?thesis by (simp add: atan2_def)
  next
    case 4
    then show ?thesis by (simp add: atan2_def)
  qed
qed

lemma atan2_origin: "atan2 0 0 = 0"
  by (simp add: atan2_def)

lemma segmentT_range: "0 \<le> segmentT b x1 y1 dx dy" "segmentT b x1 y1 dx dy \<le> 1"
  by (simp_all add: segmentT_def)

lemma abs_scaled_le:
  assumes "0 \<le> t" "t \<le> (1::real)"
  shows "\<bar>t * d\<bar> \<le> \<bar>d\<bar>"
proof -
  have "\<bar>t * d\<bar> = t * \<bar>d\<bar>" using assms by (simp add: abs_mult)
  also have "\<dots> \<le> 1 * \<bar>d\<bar>" using assms by (intro mult_right_mono) simp_all
  finally show ?thesis by simp
qed

lemma sqrt_100: "sqrt 100 = 10"
  using real_sqrt_abs [of 10] by simp

lemma atan2_down: "y < 0 \<Longrightarrow> atan2 y 0 = - pi / 2"
  by (simp add: atan2_def)

lemma atan2_up: "0 < y \<Longrightarrow> atan2 y 0 = pi / 2"
  by (simp add: atan2_def)



subsection \<open>Walls\<close>

text \<open>
  C6, as amended: a ball that penetrates a side wall or the top wall is put back on that
  boundary, and its velocity component along that axis becomes 0.8 times the magnitude of the
  incoming component, directed into the playfield (positive at the left and top walls,
  negative at the right wall). That reverses the component when it was directed into the
  wall; a ball arriving at the left wall with \<open>vx = - 10\<close> leaves with \<open>vx = 8\<close>. (The radius
  is at most 180, so that the left clamp does not trigger the right test.)
\<close>

theorem wall_collisions:
  assumes "ball_radius b \<le> 180"
  shows "(ball_x b - ball_radius b < 20 \<longrightarrow>
            ball_x (wallCollisions b) = 20 + ball_radius b \<and>
            ball_vx (wallCollisions b) = 0.8 * \<bar>ball_vx b\<bar>) \<and>
         (\<not> ball_x b - ball_radius b < 20 \<and> ball_x b + ball_radius b > 380 \<longrightarrow>
            ball_x (wallCollisions b) = 380 - ball_radius b \<and>
            ball_vx (wallCollisions b) = - (0.8 * \<bar>ball_vx b\<bar>)) \<and>
         (\<not> ball_x b - ball_radius b < 20 \<and> \<not> ball_x b + ball_radius b > 380 \<longrightarrow>
            ball_x (wallCollisions b) = ball_x b \<and> ball_vx (wallCollisions b) = ball_vx b) \<and>
         (ball_y b - ball_radius b < 20 \<longrightarrow>
            ball_y (wallCollisions b) = 20 + ball_radius b \<and>
            ball_vy (wallCollisions b) = 0.8 * \<bar>ball_vy b\<bar>) \<and>
         (\<not> ball_y b - ball_radius b < 20 \<longrightarrow>
            ball_y (wallCollisions b) = ball_y b \<and> ball_vy (wallCollisions b) = ball_vy b) \<and>
         (ball_x b - ball_radius b < 20 \<and> ball_vx b \<le> 0 \<longrightarrow>
            ball_vx (wallCollisions b) = - (0.8 * ball_vx b)) \<and>
         (\<not> ball_x b - ball_radius b < 20 \<and> ball_x b + ball_radius b > 380 \<and> 0 \<le> ball_vx b \<longrightarrow>
            ball_vx (wallCollisions b) = - (0.8 * ball_vx b)) \<and>
         (ball_y b - ball_radius b < 20 \<and> ball_vy b \<le> 0 \<longrightarrow>
            ball_vy (wallCollisions b) = - (0.8 * ball_vy b))"
  using assms by (simp add: wallCollisions_def Let_def)

theorem wall_collisions_witness:
  "ball_radius \<lparr>ball_x = 25, ball_y = 100, ball_vx = - 10, ball_vy = 3, ball_radius = 10\<rparr> \<le> 180 \<and>
   ball_x \<lparr>ball_x = 25, ball_y = 100, ball_vx = - 10, ball_vy = 3, ball_radius = 10\<rparr>
     - ball_radius \<lparr>ball_x = 25, ball_y = 100, ball_vx = - 10, ball_vy = 3, ball_radius = 10\<rparr> < 20 \<and>
   ball_x (wallCollisions \<lparr>ball_x = 25, ball_y = 100, ball_vx = - 10, ball_vy = 3, ball_radius = 10\<rparr>) = 30 \<and>
   ball_vx (wallCollisions \<lparr>ball_x = 25, ball_y = 100, ball_vx = - 10, ball_vy = 3, ball_radius = 10\<rparr>) = 8"
  using wall_collisions [of "\<lparr>ball_x = 25, ball_y = 100, ball_vx = - 10, ball_vy = 3, ball_radius = 10\<rparr>"]
  by simp

lemma physics_launchedGame:
  "physics (ball launchedGame) =
     \<lparr>ball_x = 378.01, ball_y = 649.55225, ball_vx = - 1.99, ball_vy = - 0.44775, ball_radius = 10\<rparr>"
  by (simp add: launchedGame_fields physics_def Let_def GRAVITY_def FRICTION_def)

text \<open>
  C6 as stated fails on the first playing tick of every launch: the ball starts at
  \<open>x = 380\<close>, is moved left by the launch (\<open>vx = - 1.99\<close> after friction), still overlaps the
  right wall, and keeps moving left (\<open>vx = - 1.592\<close>): the component is damped, not reversed.
\<close>

theorem wall_reversal_counterexample:
  "ball_x (physics (ball launchedGame)) + ball_radius (physics (ball launchedGame)) > 380 \<and>
   ball_vx (physics (ball launchedGame)) = - 1.99 \<and>
   ball_vx (wallCollisions (physics (ball launchedGame))) = - 1.592 \<and>
   ball_vx (wallCollisions (physics (ball launchedGame)))
     \<noteq> - (0.8 * ball_vx (physics (ball launchedGame)))"
  by (simp add: physics_launchedGame wallCollisions_def Let_def)

subsection \<open>Segment projections\<close>

lemma flipper_denominator:
  "segmentDenominator (flipperDx flipper) (flipperDy flipper) = flipper_length flipper * flipper_length flipper"
proof -
  have "cos (flipper_angle flipper) * cos (flipper_angle flipper)
        + sin (flipper_angle flipper) * sin (flipper_angle flipper) = 1"
    using sin_cos_squared_add3 [of "flipper_angle flipper"] by (simp add: power2_eq_square)
  then show ?thesis
    by (simp add: segmentDenominator_def flipperDx_def flipperDy_def scaled_unit_squares)
qed

lemma tableInv_flipper_length:
  assumes "map flipperGeometry fs = map flipperGeometry initialFlippers" "flipper \<in> set fs"
  shows "flipper_length flipper = 70 \<and> flipper_y flipper = 680 \<and>
         (flipper_x flipper = 120 \<or> flipper_x flipper = 280)"
proof -
  have "flipperGeometry flipper \<in> set (map flipperGeometry fs)" using assms(2) by simp
  then have "flipperGeometry flipper \<in> set (map flipperGeometry initialFlippers)"
    using assms(1) by simp
  then show ?thesis by (auto simp: initialFlippers_def flipperGeometry_def)
qed

text \<open>
  C9: the only division of the collision resolver is the one of the segment projection. For
  every flipper the resolver sees in a reachable state its denominator is \<open>70\<^sup>2 = 4900\<close>, for
  both angled walls it is \<open>80\<^sup>2 + 100\<^sup>2 = 16400\<close>: positive constants.
\<close>

theorem segment_denominators_positive:
  assumes "reachable g" "flipper \<in> set (map (updateFlipper (keys g)) (flippers g))"
  shows "segmentDenominator (flipperDx flipper) (flipperDy flipper) = 4900 \<and>
         0 < segmentDenominator (flipperDx flipper) (flipperDy flipper) \<and>
         segmentDenominator (100 - 20) (650 - 550) = 16400 \<and>
         segmentDenominator (300 - 380) (650 - 550) = 16400"
proof -
  have "map flipperGeometry (map (updateFlipper (keys g)) (flippers g)) = map flipperGeometry initialFlippers"
    using reachable_tableInv [OF assms(1)] by (simp add: tableInv_def)
  then have "flipper_length flipper = 70"
    using tableInv_flipper_length assms(2) by blast
  then show ?thesis
    by (simp add: flipper_denominator) (simp add: segmentDenominator_def)
qed

theorem segment_denominators_positive_witness:
  "reachable (initialGame None) \<and>
   updateFlipper {} (hd initialFlippers)
     \<in> set (map (updateFlipper (keys (initialGame None))) (flippers (initialGame None))) \<and>
   segmentDenominator (flipperDx (updateFlipper {} (hd initialFlippers)))
     (flipperDy (updateFlipper {} (hd initialFlippers))) = 4900"
proof -
  have r: "reachable (initialGame None)" by (rule reachable.mount)
  have m: "updateFlipper {} (hd initialFlippers)
     \<in> set (map (updateFlipper (keys (initialGame None))) (flippers (initialGame None)))"
    by (simp add: initialGame_def initialFlippers_def)
  show ?thesis using segment_denominators_positive [OF r m] r m by simp
qed

subsection \<open>Flippers\<close>

lemma flipperDist_nonneg: "0 \<le> flipperDist b flipper"
  by (simp add: flipperDist_def Let_def)

subsection \<open>Loading the high score\<close>

text \<open>
  C8: a missing value loads as 0, but a malformed one does not. The stored value \<open>abc\<close> loads
  as NaN, not as 0 and not as a number; and the game keeps it: \<open>Math.max\<close> with a score is NaN
  again, NaN is stored as \<open>NaN\<close>, and that loads as NaN.
\<close>

theorem highScoreInit_malformed:
  "highScoreInit None = Num 0 \<and>
   highScoreInit (Some (codeUnits ''abc'')) = NaN \<and>
   Math_max (highScoreInit (Some (codeUnits ''abc''))) (Num sc) = NaN \<and>
   toString NaN = codeUnits ''NaN'' \<and>
   highScoreInit (Some (toString NaN)) = NaN"
proof -
  have "highScoreInit (Some (codeUnits ''abc'')) = NaN"
    by (simp add: highScoreInit_def parseInt_def codeUnits_def isWhiteSpace_def isRadixDigit_def
        digitVal_def)
  then show ?thesis
    using highScoreInit_toString(1) by (simp add: highScoreInit_def)
qed

subsection \<open>One bumper\<close>

lemma bumperOverlap_sum_pos:
  assumes "bumperOverlap b bumper"
  shows "0 < ball_radius b + bumper_radius bumper"
proof -
  have "0 \<le> sqrt ((ball_x b - bumper_x bumper) * (ball_x b - bumper_x bumper)
                  + (ball_y b - bumper_y bumper) * (ball_y b - bumper_y bumper))"
    by simp
  moreover have "sqrt ((ball_x b - bumper_x bumper) * (ball_x b - bumper_x bumper)
                  + (ball_y b - bumper_y bumper) * (ball_y b - bumper_y bumper))
                 < ball_radius b + bumper_radius bumper"
    using assms by (simp add: bumperOverlap_def Let_def)
  ultimately show ?thesis by linarith
qed

lemma bumperBounce_fields:
  "ball_vx (bumperBounce b bumper) =
     cos (atan2 (ball_y b - bumper_y bumper) (ball_x b - bumper_x bumper))
       * max (sqrt (ball_vx b * ball_vx b + ball_vy b * ball_vy b) * 1.2) 8"
  "ball_vy (bumperBounce b bumper) =
     sin (atan2 (ball_y b - bumper_y bumper) (ball_x b - bumper_x bumper))
       * max (sqrt (ball_vx b * ball_vx b + ball_vy b * ball_vy b) * 1.2) 8"
  "ball_x (bumperBounce b bumper) =
     bumper_x bumper
       + cos (atan2 (ball_y b - bumper_y bumper) (ball_x b - bumper_x bumper))
         * (ball_radius b + bumper_radius bumper + 1)"
  "ball_y (bumperBounce b bumper) =
     bumper_y bumper
       + sin (atan2 (ball_y b - bumper_y bumper) (ball_x b - bumper_x bumper))
         * (ball_radius b + bumper_radius bumper + 1)"
  by (simp_all add: bumperBounce_def Let_def)

lemma bumperBounce_speed:
  "sqrt (ball_vx (bumperBounce b bumper) * ball_vx (bumperBounce b bumper)
         + ball_vy (bumperBounce b bumper) * ball_vy (bumperBounce b bumper))
     = max (sqrt (ball_vx b * ball_vx b + ball_vy b * ball_vy b) * 1.2) 8"
proof -
  have "0 \<le> max (sqrt (ball_vx b * ball_vx b + ball_vy b * ball_vy b) * 1.2) 8" by simp
  then show ?thesis
    unfolding bumperBounce_fields by (rule sqrt_scaled_unit)
qed

lemma bumperBounce_distance:
  assumes "0 \<le> ball_radius b + bumper_radius bumper + 1"
  shows "sqrt ((ball_x (bumperBounce b bumper) - bumper_x bumper)
                 * (ball_x (bumperBounce b bumper) - bumper_x bumper)
               + (ball_y (bumperBounce b bumper) - bumper_y bumper)
                 * (ball_y (bumperBounce b bumper) - bumper_y bumper))
           = ball_radius b + bumper_radius bumper + 1"
  using sqrt_scaled_unit [OF assms] by (simp add: bumperBounce_fields)

lemma bumperBounce_clear:
  assumes "0 \<le> ball_radius b + bumper_radius bumper + 1"
  shows "\<not> bumperOverlap (bumperBounce b bumper) bumper"
  using bumperBounce_distance [OF assms] by (simp add: bumperOverlap_def Let_def)

lemma bumperOverlap_zone:
  assumes "bumperOverlap b bumper"
  shows "\<bar>ball_x b - bumper_x bumper\<bar> \<le> ball_radius b + bumper_radius bumper + 1"
    "\<bar>ball_y b - bumper_y bumper\<bar> \<le> ball_radius b + bumper_radius bumper + 1"
  using assms sqrt_ge_abs1 [of "ball_x b - bumper_x bumper" "ball_y b - bumper_y bumper"]
    sqrt_ge_abs2 [of "ball_y b - bumper_y bumper" "ball_x b - bumper_x bumper"]
  by (simp_all add: bumperOverlap_def Let_def)

lemma bumperBounce_zone:
  assumes "0 \<le> ball_radius b + bumper_radius bumper + 1"
  shows "\<bar>ball_x (bumperBounce b bumper) - bumper_x bumper\<bar> \<le> ball_radius b + bumper_radius bumper + 1"
    "\<bar>ball_y (bumperBounce b bumper) - bumper_y bumper\<bar> \<le> ball_radius b + bumper_radius bumper + 1"
  using assms
    abs_cos_mult_le [of "atan2 (ball_y b - bumper_y bumper) (ball_x b - bumper_x bumper)"
      "ball_radius b + bumper_radius bumper + 1"]
    abs_sin_mult_le [of "atan2 (ball_y b - bumper_y bumper) (ball_x b - bumper_x bumper)"
      "ball_radius b + bumper_radius bumper + 1"]
  by (simp_all add: bumperBounce_fields)

lemma far_no_overlap:
  assumes "ball_radius b + bumper_radius bumper \<le> \<bar>ball_x b - bumper_x bumper\<bar>
         \<or> ball_radius b + bumper_radius bumper \<le> \<bar>ball_y b - bumper_y bumper\<bar>"
  shows "\<not> bumperOverlap b bumper"
  using assms sqrt_ge_abs1 [of "ball_x b - bumper_x bumper" "ball_y b - bumper_y bumper"]
    sqrt_ge_abs2 [of "ball_y b - bumper_y bumper" "ball_x b - bumper_x bumper"]
  by (auto simp: bumperOverlap_def Let_def)

subsection \<open>The bumper loop\<close>

lemma bumperCollisions_none:
  "\<forall>bumper\<in>set bs. \<not> bumperOverlap b bumper \<Longrightarrow> bumperCollisions bs b sc = (bs, b, sc)"
  by (induction bs) simp_all

lemma bumperCollisions_one:
  assumes "\<forall>bumper\<in>set pre. \<not> bumperOverlap b bumper"
    and "bumperOverlap b bumper"
    and "\<forall>other\<in>set post. \<not> bumperOverlap (bumperBounce b bumper) other"
  shows "bumperCollisions (pre @ bumper # post) b sc =
           (pre @ bumper\<lparr>bumper_hit := True\<rparr> # post, bumperBounce b bumper,
            sc + bumper_points bumper)"
  using assms(1)
proof (induction pre)
  case Nil
  then show ?case using assms(2,3) by (simp add: bumperCollisions_none)
next
  case (Cons a pre)
  then show ?case by simp
qed

lemma bumperCollisions_box:
  assumes "\<forall>bumper\<in>set bs.
             0 \<le> ball_radius b + bumper_radius bumper + 1 \<and>
             xlo \<le> bumper_x bumper - (ball_radius b + bumper_radius bumper + 1) \<and>
             bumper_x bumper + (ball_radius b + bumper_radius bumper + 1) \<le> xhi \<and>
             ylo \<le> bumper_y bumper - (ball_radius b + bumper_radius bumper + 1) \<and>
             bumper_y bumper + (ball_radius b + bumper_radius bumper + 1) \<le> yhi"
    and "bumperCollisions bs b sc = (bs', b', sc')"
  shows "(bs' = bs \<and> b' = b \<and> sc' = sc) \<or>
         (xlo \<le> ball_x b' \<and> ball_x b' \<le> xhi \<and> ylo \<le> ball_y b' \<and> ball_y b' \<le> yhi)"
  using assms
proof (induction bs arbitrary: b sc bs' b' sc')
  case Nil
  then show ?case by simp
next
  case (Cons bumper rest)
  show ?case
  proof (cases "bumperOverlap b bumper")
    case False
    obtain r1 b1 s1 where r: "bumperCollisions rest b sc = (r1, b1, s1)" by (metis prod_cases3)
    have eq: "bs' = bumper # r1" "b' = b1" "sc' = s1"
      using Cons.prems(2) False r by simp_all
    have "(r1 = rest \<and> b1 = b \<and> s1 = sc) \<or>
          (xlo \<le> ball_x b1 \<and> ball_x b1 \<le> xhi \<and> ylo \<le> ball_y b1 \<and> ball_y b1 \<le> yhi)"
      using Cons.IH [OF _ r] Cons.prems(1) by simp
    then show ?thesis using eq by auto
  next
    case True
    let ?b = "bumperBounce b bumper"
    obtain r1 b1 s1 where r: "bumperCollisions rest ?b (sc + bumper_points bumper) = (r1, b1, s1)"
      by (metis prod_cases3)
    have eq: "b' = b1" using Cons.prems(2) True r by simp
    have h: "0 \<le> ball_radius b + bumper_radius bumper + 1"
      "xlo \<le> bumper_x bumper - (ball_radius b + bumper_radius bumper + 1)"
      "bumper_x bumper + (ball_radius b + bumper_radius bumper + 1) \<le> xhi"
      "ylo \<le> bumper_y bumper - (ball_radius b + bumper_radius bumper + 1)"
      "bumper_y bumper + (ball_radius b + bumper_radius bumper + 1) \<le> yhi"
      using Cons.prems(1) by simp_all
    have box: "xlo \<le> ball_x ?b \<and> ball_x ?b \<le> xhi \<and> ylo \<le> ball_y ?b \<and> ball_y ?b \<le> yhi"
      using bumperBounce_zone [OF h(1)] h(2-5) by (auto simp: abs_le_iff)
    have "(r1 = rest \<and> b1 = ?b \<and> s1 = sc + bumper_points bumper) \<or>
          (xlo \<le> ball_x b1 \<and> ball_x b1 \<le> xhi \<and> ylo \<le> ball_y b1 \<and> ball_y b1 \<le> yhi)"
      using Cons.IH [OF _ r] Cons.prems(1) by simp
    then show ?thesis using eq box by auto
  qed
qed

subsection \<open>The bumpers of the table\<close>

lemma table_bumpers:
  assumes "map bumperGeometry bs = map bumperGeometry initialBumpers"
  shows "length bs = 6"
    "bumperGeometry (bs ! 0) = (200, 200, 30, 100)"
    "bumperGeometry (bs ! 1) = (120, 300, 25, 75)"
    "bumperGeometry (bs ! 2) = (280, 300, 25, 75)"
    "bumperGeometry (bs ! 3) = (200, 400, 20, 50)"
    "bumperGeometry (bs ! 4) = (100, 450, 20, 50)"
    "bumperGeometry (bs ! 5) = (300, 450, 20, 50)"
proof -
  show len: "length bs = 6"
    using arg_cong [OF assms, of length] by (simp add: initialBumpers_def)
  have tab: "map bumperGeometry initialBumpers =
      [(200, 200, 30, 100), (120, 300, 25, 75), (280, 300, 25, 75), (200, 400, 20, 50),
       (100, 450, 20, 50), (300, 450, 20, 50)]"
    by (simp add: initialBumpers_def bumperGeometry_def)
  have nth: "bumperGeometry (bs ! i) =
      [(200, 200, 30, 100), (120, 300, 25, 75), (280, 300, 25, 75), (200, 400, 20, 50),
       (100, 450, 20, 50), (300, 450, 20, 50)] ! i" if "i < 6" for i
    using that len assms tab by (metis nth_map)
  show "bumperGeometry (bs ! 0) = (200, 200, 30, 100)" using nth [of 0] by simp
  show "bumperGeometry (bs ! 1) = (120, 300, 25, 75)" using nth [of 1] by simp
  show "bumperGeometry (bs ! 2) = (280, 300, 25, 75)" using nth [of 2] by simp
  show "bumperGeometry (bs ! 3) = (200, 400, 20, 50)" using nth [of 3] by simp
  show "bumperGeometry (bs ! 4) = (100, 450, 20, 50)" using nth [of 4] by simp
  show "bumperGeometry (bs ! 5) = (300, 450, 20, 50)" using nth [of 5] by simp
qed

lemma table_bumper_cases:
  assumes "map bumperGeometry bs = map bumperGeometry initialBumpers" "bumper \<in> set bs"
  shows "bumperGeometry bumper \<in>
           {(200, 200, 30, 100), (120, 300, 25, 75), (280, 300, 25, 75), (200, 400, 20, 50),
            (100, 450, 20, 50), (300, 450, 20, 50)}"
proof -
  have "bumperGeometry bumper \<in> set (map bumperGeometry bs)" using assms(2) by simp
  then have "bumperGeometry bumper \<in> set (map bumperGeometry initialBumpers)"
    using assms(1) by simp
  then show ?thesis by (simp add: initialBumpers_def bumperGeometry_def)
qed

lemma table_separation:
  assumes geo: "map bumperGeometry bs = map bumperGeometry initialBumpers"
    and k: "k < length bs" and j: "j < length bs" and ne: "j \<noteq> k"
    and zx: "\<bar>px - bumper_x (bs ! k)\<bar> \<le> 10 + bumper_radius (bs ! k) + 1"
    and zy: "\<bar>py - bumper_y (bs ! k)\<bar> \<le> 10 + bumper_radius (bs ! k) + 1"
  shows "10 + bumper_radius (bs ! j) \<le> \<bar>px - bumper_x (bs ! j)\<bar>
       \<or> 10 + bumper_radius (bs ! j) \<le> \<bar>py - bumper_y (bs ! j)\<bar>"
proof -
  note t = table_bumpers [OF geo]
  have g: "bumper_x (bs ! 0) = 200" "bumper_y (bs ! 0) = 200" "bumper_radius (bs ! 0) = 30"
    "bumper_x (bs ! Suc 0) = 120" "bumper_y (bs ! Suc 0) = 300" "bumper_radius (bs ! Suc 0) = 25"
    "bumper_x (bs ! 2) = 280" "bumper_y (bs ! 2) = 300" "bumper_radius (bs ! 2) = 25"
    "bumper_x (bs ! 3) = 200" "bumper_y (bs ! 3) = 400" "bumper_radius (bs ! 3) = 20"
    "bumper_x (bs ! 4) = 100" "bumper_y (bs ! 4) = 450" "bumper_radius (bs ! 4) = 20"
    "bumper_x (bs ! 5) = 300" "bumper_y (bs ! 5) = 450" "bumper_radius (bs ! 5) = 20"
    using t(2-7) by (simp_all add: bumperGeometry_def)
  have kc: "k = 0 \<or> k = 1 \<or> k = 2 \<or> k = 3 \<or> k = 4 \<or> k = 5" using k t(1) by arith
  have jc: "j = 0 \<or> j = 1 \<or> j = 2 \<or> j = 3 \<or> j = 4 \<or> j = 5" using j t(1) by arith
  from kc jc ne zx zy show ?thesis
    by (elim disjE) (simp_all add: g, linarith+)
qed


subsection \<open>Where a flipper can reach\<close>

lemma flipperClosest_near:
  "\<bar>flipperClosestX b f - flipper_x f\<bar> \<le> \<bar>flipper_length f\<bar>"
  "\<bar>flipperClosestY b f - flipper_y f\<bar> \<le> \<bar>flipper_length f\<bar>"
proof -
  let ?t = "segmentT b (flipper_x f) (flipper_y f) (flipperDx f) (flipperDy f)"
  have t: "0 \<le> ?t" "?t \<le> 1" by (rule segmentT_range)+
  have "\<bar>?t * flipperDx f\<bar> \<le> \<bar>flipperDx f\<bar>" using t by (rule abs_scaled_le)
  also have "\<bar>flipperDx f\<bar> \<le> \<bar>flipper_length f\<bar>"
    using abs_cos_mult_le [of "flipper_angle f" "flipper_length f"] by (simp add: flipperDx_def)
  finally show "\<bar>flipperClosestX b f - flipper_x f\<bar> \<le> \<bar>flipper_length f\<bar>"
    by (simp add: flipperClosestX_def)
  have "\<bar>?t * flipperDy f\<bar> \<le> \<bar>flipperDy f\<bar>" using t by (rule abs_scaled_le)
  also have "\<bar>flipperDy f\<bar> \<le> \<bar>flipper_length f\<bar>"
    using abs_sin_mult_le [of "flipper_angle f" "flipper_length f"] by (simp add: flipperDy_def)
  finally show "\<bar>flipperClosestY b f - flipper_y f\<bar> \<le> \<bar>flipper_length f\<bar>"
    by (simp add: flipperClosestY_def)
qed

lemma flipper_far:
  assumes "\<bar>flipper_length f\<bar> + (ball_radius b + 8) \<le> \<bar>ball_x b - flipper_x f\<bar>
         \<or> \<bar>flipper_length f\<bar> + (ball_radius b + 8) \<le> \<bar>ball_y b - flipper_y f\<bar>"
  shows "flipperCollision b f = b"
proof -
  have dx: "\<bar>ball_x b - flipperClosestX b f\<bar> \<le> flipperDist b f"
    using sqrt_ge_abs1 [of "ball_x b - flipperClosestX b f" "ball_y b - flipperClosestY b f"]
    by (simp add: flipperDist_def Let_def)
  have dy: "\<bar>ball_y b - flipperClosestY b f\<bar> \<le> flipperDist b f"
    using sqrt_ge_abs2 [of "ball_y b - flipperClosestY b f" "ball_x b - flipperClosestX b f"]
    by (simp add: flipperDist_def Let_def)
  have "ball_radius b + 8 \<le> flipperDist b f"
    using assms dx dy flipperClosest_near [of b f] by linarith
  then show ?thesis by (simp add: flipperCollision_def)
qed

lemma flipperCollision_box:
  assumes "0 \<le> ball_radius b + 10"
  shows "flipperCollision b f = b \<or>
         (\<bar>ball_x (flipperCollision b f) - flipper_x f\<bar> \<le> \<bar>flipper_length f\<bar> + (ball_radius b + 10) \<and>
          \<bar>ball_y (flipperCollision b f) - flipper_y f\<bar> \<le> \<bar>flipper_length f\<bar> + (ball_radius b + 10))"
proof (cases "flipperDist b f < ball_radius b + 8")
  case False
  then show ?thesis by (simp add: flipperCollision_def)
next
  case True
  have x: "ball_x (flipperCollision b f)
             = flipperClosestX b f + cos (flipperNormalAngle b f) * (ball_radius b + 10)"
    and y: "ball_y (flipperCollision b f)
             = flipperClosestY b f + sin (flipperNormalAngle b f) * (ball_radius b + 10)"
    using True by (simp_all add: flipperCollision_def Let_def)
  have c: "\<bar>cos (flipperNormalAngle b f) * (ball_radius b + 10)\<bar> \<le> ball_radius b + 10"
    using abs_cos_mult_le [of "flipperNormalAngle b f" "ball_radius b + 10"] assms by simp
  have s: "\<bar>sin (flipperNormalAngle b f) * (ball_radius b + 10)\<bar> \<le> ball_radius b + 10"
    using abs_sin_mult_le [of "flipperNormalAngle b f" "ball_radius b + 10"] assms by simp
  show ?thesis
    using x y c s flipperClosest_near [of b f] by linarith
qed

lemma flipperCollisions_invariant:
  assumes "\<And>f c. f \<in> set fs \<Longrightarrow> ball_radius c = ball_radius b \<Longrightarrow> P c \<Longrightarrow> P (flipperCollision c f)"
    and "P b"
  shows "P (flipperCollisions fs b)"
  using assms unfolding flipperCollisions_def
proof (induction fs arbitrary: b)
  case Nil
  then show ?case by simp
next
  case (Cons f fs)
  have 1: "P (flipperCollision b f)" using Cons.prems by simp
  have 2: "ball_radius (flipperCollision b f) = ball_radius b" by simp
  show ?case
    using Cons.IH [of "flipperCollision b f"] Cons.prems(1) 1 2 by simp
qed

lemma flipperCollisions_far:
  assumes "\<forall>f\<in>set fs. \<bar>flipper_length f\<bar> + (ball_radius b + 8) \<le> \<bar>ball_x b - flipper_x f\<bar>
                     \<or> \<bar>flipper_length f\<bar> + (ball_radius b + 8) \<le> \<bar>ball_y b - flipper_y f\<bar>"
  shows "flipperCollisions fs b = b"
  using assms unfolding flipperCollisions_def
  by (induction fs) (simp_all add: flipper_far)

subsection \<open>Where an angled wall can reach\<close>

lemma wallClosest_range:
  "min x1 x2 \<le> wallClosestX b x1 y1 x2 y2" "wallClosestX b x1 y1 x2 y2 \<le> max x1 x2"
  "min y1 y2 \<le> wallClosestY b x1 y1 x2 y2" "wallClosestY b x1 y1 x2 y2 \<le> max y1 y2"
proof -
  let ?t = "segmentT b x1 y1 (x2 - x1) (y2 - y1)"
  have t: "0 \<le> ?t" "?t \<le> 1" by (rule segmentT_range)+
  have cx: "\<bar>?t * (x2 - x1)\<bar> \<le> \<bar>x2 - x1\<bar>" using t by (rule abs_scaled_le)
  have cy: "\<bar>?t * (y2 - y1)\<bar> \<le> \<bar>y2 - y1\<bar>" using t by (rule abs_scaled_le)
  have sx: "0 \<le> ?t * (x2 - x1) \<longleftrightarrow> 0 \<le> x2 - x1 \<or> ?t = 0"
    using t by (auto simp: zero_le_mult_iff)
  have sy: "0 \<le> ?t * (y2 - y1) \<longleftrightarrow> 0 \<le> y2 - y1 \<or> ?t = 0"
    using t by (auto simp: zero_le_mult_iff)
  show "min x1 x2 \<le> wallClosestX b x1 y1 x2 y2" "wallClosestX b x1 y1 x2 y2 \<le> max x1 x2"
    using cx sx unfolding wallClosestX_def by (auto simp: abs_le_iff min_def max_def)
  show "min y1 y2 \<le> wallClosestY b x1 y1 x2 y2" "wallClosestY b x1 y1 x2 y2 \<le> max y1 y2"
    using cy sy unfolding wallClosestY_def by (auto simp: abs_le_iff min_def max_def)
qed

lemma wallDist_ge:
  "\<bar>ball_x b - wallClosestX b x1 y1 x2 y2\<bar> \<le> wallDist b x1 y1 x2 y2"
  "\<bar>ball_y b - wallClosestY b x1 y1 x2 y2\<bar> \<le> wallDist b x1 y1 x2 y2"
  using sqrt_ge_abs1 [of "ball_x b - wallClosestX b x1 y1 x2 y2" "ball_y b - wallClosestY b x1 y1 x2 y2"]
    sqrt_ge_abs2 [of "ball_y b - wallClosestY b x1 y1 x2 y2" "ball_x b - wallClosestX b x1 y1 x2 y2"]
  by (simp_all add: wallDist_def Let_def)

lemma wall_far:
  assumes "max x1 x2 + (ball_radius b + 3) \<le> ball_x b \<or> ball_x b \<le> min x1 x2 - (ball_radius b + 3)
         \<or> max y1 y2 + (ball_radius b + 3) \<le> ball_y b \<or> ball_y b \<le> min y1 y2 - (ball_radius b + 3)"
  shows "checkAngledWall x1 y1 x2 y2 b = b"
proof -
  have "ball_radius b + 3 \<le> wallDist b x1 y1 x2 y2"
    using assms wallDist_ge [of b x1 y1 x2 y2] wallClosest_range [where b = b and ?x1.0 = x1 and ?x2.0 = x2 and ?y1.0 = y1 and ?y2.0 = y2] by linarith
  then show ?thesis by (simp add: checkAngledWall_def)
qed

lemma checkAngledWall_box:
  assumes "0 \<le> ball_radius b + 5"
  shows "checkAngledWall x1 y1 x2 y2 b = b \<or>
         (min x1 x2 - (ball_radius b + 5) \<le> ball_x (checkAngledWall x1 y1 x2 y2 b) \<and>
          ball_x (checkAngledWall x1 y1 x2 y2 b) \<le> max x1 x2 + (ball_radius b + 5) \<and>
          min y1 y2 - (ball_radius b + 5) \<le> ball_y (checkAngledWall x1 y1 x2 y2 b) \<and>
          ball_y (checkAngledWall x1 y1 x2 y2 b) \<le> max y1 y2 + (ball_radius b + 5))"
proof (cases "wallDist b x1 y1 x2 y2 < ball_radius b + 3")
  case False
  then show ?thesis by (simp add: checkAngledWall_def)
next
  case True
  let ?n = "atan2 (ball_y b - wallClosestY b x1 y1 x2 y2) (ball_x b - wallClosestX b x1 y1 x2 y2)"
  have x: "ball_x (checkAngledWall x1 y1 x2 y2 b)
             = wallClosestX b x1 y1 x2 y2 + cos ?n * (ball_radius b + 5)"
    and y: "ball_y (checkAngledWall x1 y1 x2 y2 b)
             = wallClosestY b x1 y1 x2 y2 + sin ?n * (ball_radius b + 5)"
    using True by (simp_all add: checkAngledWall_def Let_def)
  have c: "\<bar>cos ?n * (ball_radius b + 5)\<bar> \<le> ball_radius b + 5"
    using abs_cos_mult_le [of ?n "ball_radius b + 5"] assms by simp
  have s: "\<bar>sin ?n * (ball_radius b + 5)\<bar> \<le> ball_radius b + 5"
    using abs_sin_mult_le [of ?n "ball_radius b + 5"] assms by simp
  show ?thesis
    using x y c s wallClosest_range [where b = b and ?x1.0 = x1 and ?x2.0 = x2 and ?y1.0 = y1 and ?y2.0 = y2] by linarith
qed


subsection \<open>The table\<close>

lemma table_bumper_box:
  assumes "map bumperGeometry bs = map bumperGeometry initialBumpers" "bumper \<in> set bs"
  shows "0 \<le> 10 + bumper_radius bumper + 1"
    "69 \<le> bumper_x bumper - (10 + bumper_radius bumper + 1)"
    "bumper_x bumper + (10 + bumper_radius bumper + 1) \<le> 331"
    "159 \<le> bumper_y bumper - (10 + bumper_radius bumper + 1)"
    "bumper_y bumper + (10 + bumper_radius bumper + 1) \<le> 481"
  using table_bumper_cases [OF assms] by (auto simp: bumperGeometry_def)

lemma table_flippers_quiet:
  assumes "map flipperGeometry fs = map flipperGeometry initialFlippers"
    and "ball_radius b = 10"
    and "ball_y b \<le> 592 \<or> 768 \<le> ball_y b \<or> ball_x b \<le> 32 \<or> 368 \<le> ball_x b"
  shows "flipperCollisions fs b = b"
proof (rule flipperCollisions_far, rule ballI)
  fix f assume "f \<in> set fs"
  then have "flipper_length f = 70 \<and> flipper_y f = 680 \<and> (flipper_x f = 120 \<or> flipper_x f = 280)"
    using tableInv_flipper_length [OF assms(1)] by simp
  then show "\<bar>flipper_length f\<bar> + (ball_radius b + 8) \<le> \<bar>ball_x b - flipper_x f\<bar>
           \<or> \<bar>flipper_length f\<bar> + (ball_radius b + 8) \<le> \<bar>ball_y b - flipper_y f\<bar>"
    using assms(2,3) by auto
qed

lemma table_flippers_y:
  assumes "map flipperGeometry fs = map flipperGeometry initialFlippers"
    and "ball_radius b = 10"
  shows "ball_y (flipperCollisions fs b) \<le> max (ball_y b) 770"
proof (rule flipperCollisions_invariant [where P = "\<lambda>c. ball_y c \<le> max (ball_y b) 770"])
  show "ball_y b \<le> max (ball_y b) 770" by simp
next
  fix f and c :: Ball
  assume f: "f \<in> set fs" and rc: "ball_radius c = ball_radius b"
    and c: "ball_y c \<le> max (ball_y b) 770"
  have g: "flipper_length f = 70 \<and> flipper_y f = 680"
    using tableInv_flipper_length [OF assms(1) f] by simp
  have "0 \<le> ball_radius c + 10" using rc assms(2) by simp
  from flipperCollision_box [OF this, of f]
  show "ball_y (flipperCollision c f) \<le> max (ball_y b) 770"
    using c g rc assms(2) by (auto simp: abs_le_iff)
qed

lemma table_flippers_box:
  assumes "map flipperGeometry fs = map flipperGeometry initialFlippers"
    and "ball_radius b = 10"
    and "30 \<le> ball_x b \<and> ball_x b \<le> 370 \<and> 30 \<le> ball_y b"
  shows "30 \<le> ball_x (flipperCollisions fs b) \<and> ball_x (flipperCollisions fs b) \<le> 370 \<and>
         30 \<le> ball_y (flipperCollisions fs b)"
proof (rule flipperCollisions_invariant
        [where P = "\<lambda>c. 30 \<le> ball_x c \<and> ball_x c \<le> 370 \<and> 30 \<le> ball_y c"])
  show "30 \<le> ball_x b \<and> ball_x b \<le> 370 \<and> 30 \<le> ball_y b" by (rule assms(3))
next
  fix f and c :: Ball
  assume f: "f \<in> set fs" and rc: "ball_radius c = ball_radius b"
    and c: "30 \<le> ball_x c \<and> ball_x c \<le> 370 \<and> 30 \<le> ball_y c"
  have g: "flipper_length f = 70 \<and> flipper_y f = 680 \<and> (flipper_x f = 120 \<or> flipper_x f = 280)"
    using tableInv_flipper_length [OF assms(1) f] by simp
  have "0 \<le> ball_radius c + 10" using rc assms(2) by simp
  from flipperCollision_box [OF this, of f]
  show "30 \<le> ball_x (flipperCollision c f) \<and> ball_x (flipperCollision c f) \<le> 370 \<and>
        30 \<le> ball_y (flipperCollision c f)"
    using c g rc assms(2) by (auto simp: abs_le_iff)
qed

lemma angledWalls_quiet:
  assumes "ball_radius b = 10"
    and "ball_y b \<le> 537 \<or> 663 \<le> ball_y b \<or> (113 \<le> ball_x b \<and> ball_x b \<le> 287)"
  shows "angledWalls b = b"
proof -
  have 1: "checkAngledWall 20 550 100 650 b = b"
    using assms by (intro wall_far) auto
  have 2: "checkAngledWall 380 550 300 650 b = b"
    using assms by (intro wall_far) auto
  show ?thesis by (simp add: angledWalls_def 1 2)
qed

lemma angledWalls_y:
  assumes "ball_radius b = 10"
  shows "ball_y (angledWalls b) \<le> max (ball_y b) 665" "min (ball_y b) 535 \<le> ball_y (angledWalls b)"
proof -
  let ?c = "checkAngledWall 20 550 100 650 b"
  have r: "0 \<le> ball_radius b + 5" "0 \<le> ball_radius ?c + 5" using assms by simp_all
  have 1: "ball_y ?c \<le> max (ball_y b) 665 \<and> min (ball_y b) 535 \<le> ball_y ?c"
    using checkAngledWall_box [OF r(1), of 20 550 100 650] assms by auto
  have 2: "ball_y (checkAngledWall 380 550 300 650 ?c) \<le> max (ball_y ?c) 665
         \<and> min (ball_y ?c) 535 \<le> ball_y (checkAngledWall 380 550 300 650 ?c)"
    using checkAngledWall_box [OF r(2), of 380 550 300 650] assms by auto
  show "ball_y (angledWalls b) \<le> max (ball_y b) 665" "min (ball_y b) 535 \<le> ball_y (angledWalls b)"
    using 1 2 by (auto simp: angledWalls_def)
qed

lemma wallCollisions_box:
  assumes "ball_radius b = 10"
  shows "30 \<le> ball_x (wallCollisions b)" "ball_x (wallCollisions b) \<le> 370"
    "30 \<le> ball_y (wallCollisions b)"
  using assms by (auto simp: wallCollisions_def Let_def)

subsection \<open>A tick in which one bumper is hit\<close>

lemma bumper_hit_collisions:
  assumes geo_b: "map bumperGeometry bs = map bumperGeometry initialBumpers"
    and geo_f: "map flipperGeometry fs = map flipperGeometry initialFlippers"
    and r: "ball_radius b = 10"
    and k: "k < length bs"
    and ov: "bumperOverlap (wallCollisions b) (bs ! k)"
  shows "collisions bs fs b sc =
           (bs[k := (bs ! k)\<lparr>bumper_hit := True\<rparr>], bumperBounce (wallCollisions b) (bs ! k),
            sc + bumper_points (bs ! k))"
    and "ball_y (bumperBounce (wallCollisions b) (bs ! k)) \<le> 481"
proof -
  let ?w = "wallCollisions b"
  let ?b1 = "bumperBounce ?w (bs ! k)"
  have rw: "ball_radius ?w = 10" "ball_radius ?b1 = 10" using r by simp_all
  have mem: "bs ! k \<in> set bs" using k by simp
  have pos: "0 \<le> ball_radius ?w + bumper_radius (bs ! k) + 1"
    using bumperOverlap_sum_pos [OF ov] by simp
  note z0 = bumperOverlap_zone [OF ov]
  note z1 = bumperBounce_zone [OF pos]
  have others: "\<not> bumperOverlap ?w (bs ! j) \<and> \<not> bumperOverlap ?b1 (bs ! j)"
    if "j < length bs" "j \<noteq> k" for j
  proof -
    have a: "10 + bumper_radius (bs ! j) \<le> \<bar>ball_x ?w - bumper_x (bs ! j)\<bar>
           \<or> 10 + bumper_radius (bs ! j) \<le> \<bar>ball_y ?w - bumper_y (bs ! j)\<bar>"
      using table_separation [OF geo_b k that] z0 rw by simp
    have b: "10 + bumper_radius (bs ! j) \<le> \<bar>ball_x ?b1 - bumper_x (bs ! j)\<bar>
           \<or> 10 + bumper_radius (bs ! j) \<le> \<bar>ball_y ?b1 - bumper_y (bs ! j)\<bar>"
      using table_separation [OF geo_b k that] z1 rw by simp
    show ?thesis
      using a b far_no_overlap [of ?w "bs ! j"] far_no_overlap [of ?b1 "bs ! j"] rw by simp
  qed
  have pre: "\<forall>bumper\<in>set (take k bs). \<not> bumperOverlap ?w bumper"
  proof
    fix bumper assume "bumper \<in> set (take k bs)"
    then obtain j where "j < k" "bumper = bs ! j"
      using k by (auto simp: in_set_conv_nth)
    then show "\<not> bumperOverlap ?w bumper" using others [of j] k by simp
  qed
  have post: "\<forall>other\<in>set (drop (Suc k) bs). \<not> bumperOverlap ?b1 other"
  proof
    fix other assume "other \<in> set (drop (Suc k) bs)"
    then obtain i where "i < length bs - Suc k" "other = bs ! (Suc k + i)"
      by (auto simp: in_set_conv_nth)
    then show "\<not> bumperOverlap ?b1 other" using others [of "Suc k + i"] by simp
  qed
  have split: "bs = take k bs @ bs ! k # drop (Suc k) bs"
    using k by (rule id_take_nth_drop)
  have "bumperCollisions (take k bs @ bs ! k # drop (Suc k) bs) ?w sc =
          (take k bs @ (bs ! k)\<lparr>bumper_hit := True\<rparr> # drop (Suc k) bs, ?b1,
           sc + bumper_points (bs ! k))"
    using pre ov post by (rule bumperCollisions_one)
  then have bc: "bumperCollisions bs ?w sc =
      (bs[k := (bs ! k)\<lparr>bumper_hit := True\<rparr>], ?b1, sc + bumper_points (bs ! k))"
    using split k by (simp add: upd_conv_take_nth_drop)
  show y: "ball_y ?b1 \<le> 481"
    using z1(2) table_bumper_box(5) [OF geo_b mem] rw by (simp add: abs_le_iff)
  have "flipperCollisions fs ?b1 = ?b1"
    using geo_f rw(2) y by (intro table_flippers_quiet) auto
  moreover have "angledWalls ?b1 = ?b1"
    using rw(2) y by (intro angledWalls_quiet) auto
  ultimately show "collisions bs fs b sc =
           (bs[k := (bs ! k)\<lparr>bumper_hit := True\<rparr>], ?b1, sc + bumper_points (bs ! k))"
    using bc by (simp add: collisions_def)
qed


lemma table_bumpers_quiet:
  assumes "map bumperGeometry bs = map bumperGeometry initialBumpers"
    and "ball_radius b = 10"
    and "481 \<le> ball_y b \<or> ball_y b \<le> 159 \<or> ball_x b \<le> 69 \<or> 331 \<le> ball_x b"
  shows "bumperCollisions bs b sc = (bs, b, sc)"
proof (rule bumperCollisions_none, rule ballI)
  fix bumper assume m: "bumper \<in> set bs"
  note box = table_bumper_box [OF assms(1) m]
  show "\<not> bumperOverlap b bumper"
    using box assms(2,3) by (intro far_no_overlap) (auto simp: abs_le_iff)
qed

lemma gameLoop_bumper_hit:
  assumes inv: "tableInv g" and play: "gameState g = Playing" and k: "k < length (bumpers g)"
    and ov: "bumperOverlap (wallCollisions (physics (ball g))) (bumpers g ! k)"
  shows "ball (gameLoop g) = bumperBounce (wallCollisions (physics (ball g))) (bumpers g ! k)"
    and "score (gameLoop g) = score g + bumper_points (bumpers g ! k)"
    and "bumpers (gameLoop g) = (bumpers g)[k := (bumpers g ! k)\<lparr>bumper_hit := True\<rparr>]"
    and "gameState (gameLoop g) = Playing"
proof -
  let ?fs = "map (updateFlipper (keys g)) (flippers g)"
  have gb: "map bumperGeometry (bumpers g) = map bumperGeometry initialBumpers"
    and gf: "map flipperGeometry ?fs = map flipperGeometry initialFlippers"
    and r: "ball_radius (physics (ball g)) = 10"
    using inv by (simp_all add: tableInv_def BALL_RADIUS_def)
  note c = bumper_hit_collisions(1) [OF gb gf r k ov, of "score g"]
    bumper_hit_collisions(2) [OF gb gf r k ov]
  have y: "\<not> ball_y (bumperBounce (wallCollisions (physics (ball g))) (bumpers g ! k)) > 780"
    using c(2) by simp
  show "ball (gameLoop g) = bumperBounce (wallCollisions (physics (ball g))) (bumpers g ! k)"
    and "score (gameLoop g) = score g + bumper_points (bumpers g ! k)"
    and "bumpers (gameLoop g) = (bumpers g)[k := (bumpers g ! k)\<lparr>bumper_hit := True\<rparr>]"
    and "gameState (gameLoop g) = Playing"
    using y play by (simp_all add: gameLoop_playing [OF play c(1)] Let_def)
qed

text \<open>
  C1: in a playing tick in which the ball, after integration and the wall tests, overlaps
  the bumper at index \<open>k\<close>, the tick ends with the ball's velocity
  \<open>max (speed * 1.2) 8\<close> times the unit vector of the contact angle
  \<open>atan2 (ball - bumper)\<close>, so its speed is \<open>max (speed * 1.2) 8\<close>, and 8 for a ball at rest;
  the ball is at distance \<open>radius + bumper.radius + 1\<close> from the bumper's centre along that
  angle, no longer overlapping; the score has grown by exactly that bumper's points, and
  that bumper alone is marked hit. (On this table no other bumper, flipper or angled wall
  is in reach of a ball that overlaps a bumper.)
\<close>

theorem bumper_hit_tick:
  assumes "tableInv g" "gameState g = Playing" "k < length (bumpers g)"
    and "bumperOverlap (wallCollisions (physics (ball g))) (bumpers g ! k)"
  shows "let b = wallCollisions (physics (ball g));
             bumper = bumpers g ! k;
             angle = atan2 (ball_y b - bumper_y bumper) (ball_x b - bumper_x bumper);
             speed = sqrt (ball_vx b * ball_vx b + ball_vy b * ball_vy b);
             b' = ball (gameLoop g)
         in ball_vx b' = cos angle * max (speed * 1.2) 8 \<and>
            ball_vy b' = sin angle * max (speed * 1.2) 8 \<and>
            sqrt (ball_vx b' * ball_vx b' + ball_vy b' * ball_vy b') = max (speed * 1.2) 8 \<and>
            (ball_vx b = 0 \<and> ball_vy b = 0 \<longrightarrow>
               sqrt (ball_vx b' * ball_vx b' + ball_vy b' * ball_vy b') = 8) \<and>
            ball_x b' = bumper_x bumper + cos angle * (ball_radius b + bumper_radius bumper + 1) \<and>
            ball_y b' = bumper_y bumper + sin angle * (ball_radius b + bumper_radius bumper + 1) \<and>
            sqrt ((ball_x b' - bumper_x bumper) * (ball_x b' - bumper_x bumper)
                  + (ball_y b' - bumper_y bumper) * (ball_y b' - bumper_y bumper))
              = ball_radius b + bumper_radius bumper + 1 \<and>
            \<not> bumperOverlap b' bumper \<and>
            score (gameLoop g) = score g + bumper_points bumper \<and>
            bumpers (gameLoop g) = (bumpers g)[k := bumper\<lparr>bumper_hit := True\<rparr>] \<and>
            gameState (gameLoop g) = Playing"
proof -
  let ?b = "wallCollisions (physics (ball g))"
  let ?bumper = "bumpers g ! k"
  note t = gameLoop_bumper_hit [OF assms]
  have pos: "0 \<le> ball_radius ?b + bumper_radius ?bumper + 1"
    using bumperOverlap_sum_pos [OF assms(4)] by simp
  have rest: "ball_vx ?b = 0 \<and> ball_vy ?b = 0 \<longrightarrow>
      sqrt (ball_vx (bumperBounce ?b ?bumper) * ball_vx (bumperBounce ?b ?bumper)
            + ball_vy (bumperBounce ?b ?bumper) * ball_vy (bumperBounce ?b ?bumper)) = 8"
    using bumperBounce_speed [of ?b ?bumper] by simp
  show ?thesis
    unfolding Let_def t
    using bumperBounce_fields [of ?b ?bumper] bumperBounce_speed [of ?b ?bumper]
      bumperBounce_distance [OF pos] bumperBounce_clear [OF pos] rest
    by (intro conjI) simp_all
qed

lemma launchedGame_table:
  "bumpers launchedGame = initialBumpers" "score launchedGame = 0" "ballsLeft launchedGame = 3"
  "highScore launchedGame = Num 0" "launchPower launchedGame = 2" "keys launchedGame = {}"
  "flippers launchedGame = initialFlippers"
  by (simp_all add: launchedGame_def handleKeyUp_def gameLoop_not_playing updateLaunchPower_def
      handleKeyDown_def initialGame_def startGame_def resetBall_def Let_def highScoreInit_def
      updateFlipper_def initialFlippers_def FLIPPER_SPEED_def)

lemma sqrt_1521: "sqrt 1521 = 39"
  using real_sqrt_abs [of 39] by simp

theorem bumper_hit_tick_witness:
  "tableInv restingOnBumper \<and> gameState restingOnBumper = Playing \<and>
   0 < length (bumpers restingOnBumper) \<and>
   bumperOverlap (wallCollisions (physics (ball restingOnBumper))) (bumpers restingOnBumper ! 0) \<and>
   ball_vx (ball (gameLoop restingOnBumper)) = 0 \<and>
   ball_vy (ball (gameLoop restingOnBumper)) = 8 \<and>
   ball_x (ball (gameLoop restingOnBumper)) = 200 \<and>
   ball_y (ball (gameLoop restingOnBumper)) = 241 \<and>
   score (gameLoop restingOnBumper) = 100"
proof -
  have inv: "tableInv restingOnBumper"
    using reachable_tableInv [OF reachable_launchedGame]
    by (simp add: tableInv_def restingOnBumper_def BALL_RADIUS_def)
  have play: "gameState restingOnBumper = Playing"
    by (simp add: restingOnBumper_def launchedGame_fields)
  have bs: "bumpers restingOnBumper = initialBumpers" "score restingOnBumper = 0"
    by (simp_all add: restingOnBumper_def launchedGame_table)
  have k: "0 < length (bumpers restingOnBumper)"
    by (simp add: bs initialBumpers_def)
  have b: "wallCollisions (physics (ball restingOnBumper))
             = \<lparr>ball_x = 200, ball_y = 239, ball_vx = 0, ball_vy = 0, ball_radius = 10\<rparr>"
    by (simp add: restingOnBumper_def physics_def wallCollisions_def Let_def GRAVITY_def FRICTION_def)
  have ov: "bumperOverlap (wallCollisions (physics (ball restingOnBumper))) (bumpers restingOnBumper ! 0)"
    by (simp add: b bs initialBumpers_def bumperOverlap_def Let_def sqrt_1521)
  have a: "atan2 39 0 = pi / 2" by (simp add: atan2_up)
  show ?thesis
    using bumper_hit_tick [OF inv play k ov] inv play k ov
    by (simp add: Let_def b bs initialBumpers_def a)
qed


subsection \<open>A tick in which the ball is lost\<close>

lemma lost_tick_quiet:
  assumes gb: "map bumperGeometry bs = map bumperGeometry initialBumpers"
    and gf: "map flipperGeometry fs = map flipperGeometry initialFlippers"
    and r: "ball_radius b = 10"
    and c: "collisions bs fs b sc = (bs', b', sc')"
    and lost: "ball_y b' > 780"
  shows "sc' = sc \<and> bs' = bs"
proof -
  let ?w = "wallCollisions b"
  obtain r1 b1 s1 where bc: "bumperCollisions bs ?w sc = (r1, b1, s1)" by (metis prod_cases3)
  have eq: "bs' = r1" "sc' = s1" "b' = angledWalls (flipperCollisions fs b1)"
    using c bc by (simp_all add: collisions_def)
  have rw: "ball_radius ?w = 10" using r by simp
  have r1: "ball_radius b1 = 10" using bumperCollisions_radius [OF bc] rw by simp
  have box: "\<forall>bumper\<in>set bs.
             0 \<le> ball_radius ?w + bumper_radius bumper + 1 \<and>
             69 \<le> bumper_x bumper - (ball_radius ?w + bumper_radius bumper + 1) \<and>
             bumper_x bumper + (ball_radius ?w + bumper_radius bumper + 1) \<le> 331 \<and>
             159 \<le> bumper_y bumper - (ball_radius ?w + bumper_radius bumper + 1) \<and>
             bumper_y bumper + (ball_radius ?w + bumper_radius bumper + 1) \<le> 481"
    using table_bumper_box [OF gb] rw by simp
  have y: "ball_y b' \<le> max (ball_y b1) 770"
  proof -
    have "ball_y b' \<le> max (ball_y (flipperCollisions fs b1)) 665"
      unfolding eq by (rule angledWalls_y) (simp add: r1)
    moreover have "ball_y (flipperCollisions fs b1) \<le> max (ball_y b1) 770"
      using gf r1 by (rule table_flippers_y)
    ultimately show ?thesis by simp
  qed
  from bumperCollisions_box [OF box bc]
  show ?thesis
  proof
    assume "r1 = bs \<and> b1 = ?w \<and> s1 = sc"
    then show ?thesis using eq by simp
  next
    assume "69 \<le> ball_x b1 \<and> ball_x b1 \<le> 331 \<and> 159 \<le> ball_y b1 \<and> ball_y b1 \<le> 481"
    then have "ball_y b' \<le> 770" using y by simp
    then show ?thesis using lost by simp
  qed
qed

text \<open>
  C4: in a playing tick whose resolver leaves the ball at \<open>y > 780\<close>, \<open>ballsLeft\<close> goes down
  by 1 and the score stays. If that makes 0, the game is over, the high score becomes
  \<open>Math.max(highScore, score)\<close> and its string is stored (it loads back as the same value when
  that is NaN or an integer of magnitude below \<open>2\<^sup>5\<^sup>3\<close>).
  Otherwise the ball is back at the launch position at rest, \<open>launchPower\<close> is 0 and the game
  is \<open>launching\<close>.
\<close>

theorem ball_lost_tick:
  assumes "tableInv g" "sessionInv g" "gameState g = Playing" "ball_y (resolvedBall g) > 780"
  shows "ballsLeft (gameLoop g) = ballsLeft g - 1 \<and> 0 \<le> ballsLeft g - 1 \<and>
         score (gameLoop g) = score g \<and>
         (ballsLeft g - 1 = 0 \<longrightarrow>
            gameState (gameLoop g) = Gameover \<and>
            highScore (gameLoop g) = Math_max (highScore g) (Num (score g)) \<and>
            (\<forall>h. highScore g = Num h \<longrightarrow> highScore (gameLoop g) = Num (max h (score g))) \<and>
            storage (gameLoop g) = Some (toString (highScore (gameLoop g))) \<and>
            (highScore (gameLoop g) = NaN \<longrightarrow> highScoreInit (storage (gameLoop g)) = NaN) \<and>
            (\<forall>n. highScore (gameLoop g) = Num n \<and> \<bar>n\<bar> < 2 ^ 53 \<longrightarrow>
               highScoreInit (storage (gameLoop g)) = Num n)) \<and>
         (ballsLeft g - 1 \<noteq> 0 \<longrightarrow>
            ball (gameLoop g) =
              \<lparr>ball_x = 380, ball_y = 650, ball_vx = 0, ball_vy = 0, ball_radius = BALL_RADIUS\<rparr> \<and>
            launchPower (gameLoop g) = 0 \<and>
            gameState (gameLoop g) = Launching \<and>
            highScore (gameLoop g) = highScore g \<and>
            storage (gameLoop g) = storage g)"
proof -
  let ?fs = "map (updateFlipper (keys g)) (flippers g)"
  obtain bs' b' sc' where c:
    "collisions (bumpers g) ?fs (physics (ball g)) (score g) = (bs', b', sc')"
    by (metis prod_cases3)
  have gb: "map bumperGeometry (bumpers g) = map bumperGeometry initialBumpers"
    and gf: "map flipperGeometry ?fs = map flipperGeometry initialFlippers"
    and r: "ball_radius (physics (ball g)) = 10"
    using assms(1) by (simp_all add: tableInv_def BALL_RADIUS_def)
  have lost: "ball_y b' > 780" using assms(4) resolvedBall_eq [OF c] by simp
  have q: "sc' = score g" using lost_tick_quiet [OF gb gf r c lost] by simp
  have n: "1 \<le> ballsLeft g" using assms(2,3) by (simp add: sessionInv_def)
  have loop: "gameLoop g =
      ballLost (score g)
        (g\<lparr>flippers := ?fs, ball := b', trail := updateTrail (physics (ball g)) (trail g),
           bumpers := bs', score := sc'\<rparr>)"
    using lost by (simp add: gameLoop_playing [OF assms(3) c] Let_def)
  show ?thesis
    using n q unfolding loop
    by (auto simp: ballLost_def resetBall_def Let_def highScoreInit_toString
             simp del: toString.simps)
qed

theorem ball_lost_tick_witness:
  "tableInv drainingGame \<and> sessionInv drainingGame \<and> gameState drainingGame = Playing \<and>
   ball_y (resolvedBall drainingGame) > 780 \<and>
   ballsLeft drainingGame - 1 = 0 \<and>
   gameState (gameLoop drainingGame) = Gameover \<and>
   ballsLeft (gameLoop drainingGame) = 0 \<and>
   score (gameLoop drainingGame) = 250 \<and>
   highScore (gameLoop drainingGame) = Num 250 \<and>
   tableInv (drainingGame\<lparr>ballsLeft := 3\<rparr>) \<and> sessionInv (drainingGame\<lparr>ballsLeft := 3\<rparr>) \<and>
   gameState (drainingGame\<lparr>ballsLeft := 3\<rparr>) = Playing \<and>
   ball_y (resolvedBall (drainingGame\<lparr>ballsLeft := 3\<rparr>)) > 780 \<and>
   ballsLeft (drainingGame\<lparr>ballsLeft := 3\<rparr>) - 1 \<noteq> 0 \<and>
   gameState (gameLoop (drainingGame\<lparr>ballsLeft := 3\<rparr>)) = Launching \<and>
   ballsLeft (gameLoop (drainingGame\<lparr>ballsLeft := 3\<rparr>)) = 2 \<and>
   launchPower (gameLoop (drainingGame\<lparr>ballsLeft := 3\<rparr>)) = 0 \<and>
   score (gameLoop (drainingGame\<lparr>ballsLeft := 3\<rparr>)) = 250"
proof -
  let ?g3 = "drainingGame\<lparr>ballsLeft := 3\<rparr>"
  have inv: "tableInv drainingGame" "tableInv ?g3"
    using reachable_tableInv [OF reachable_launchedGame]
    by (simp_all add: tableInv_def drainingGame_def BALL_RADIUS_def)
  have ses: "sessionInv drainingGame" "sessionInv ?g3"
    using reachable_sessionInv [OF reachable_launchedGame]
    by (simp_all add: sessionInv_def drainingGame_def launchedGame_fields)
  have play: "gameState drainingGame = Playing" "gameState ?g3 = Playing"
    by (simp_all add: drainingGame_def launchedGame_fields)
  have f: "score drainingGame = 250" "highScore drainingGame = Num 0" "ballsLeft drainingGame = 1"
    by (simp_all add: drainingGame_def launchedGame_table)
  have p: "physics (ball drainingGame)
             = \<lparr>ball_x = 200, ball_y = 785.11925, ball_vx = 0, ball_vy = 6.11925, ball_radius = 10\<rparr>"
    by (simp add: drainingGame_def physics_def Let_def GRAVITY_def FRICTION_def)
  have w: "wallCollisions (physics (ball drainingGame)) = physics (ball drainingGame)"
    by (simp add: p wallCollisions_def Let_def)
  have gb: "map bumperGeometry (bumpers drainingGame) = map bumperGeometry initialBumpers"
    and gf: "map flipperGeometry (map (updateFlipper (keys drainingGame)) (flippers drainingGame))
               = map flipperGeometry initialFlippers"
    using inv(1) by (simp_all add: tableInv_def)
  have b: "bumperCollisions (bumpers drainingGame) (physics (ball drainingGame)) (score drainingGame)
             = (bumpers drainingGame, physics (ball drainingGame), score drainingGame)"
    using gb by (rule table_bumpers_quiet) (simp_all add: p)
  have fl: "flipperCollisions (map (updateFlipper (keys drainingGame)) (flippers drainingGame))
              (physics (ball drainingGame)) = physics (ball drainingGame)"
    using gf by (rule table_flippers_quiet) (simp_all add: p)
  have a: "angledWalls (physics (ball drainingGame)) = physics (ball drainingGame)"
    by (rule angledWalls_quiet) (simp_all add: p)
  have res: "resolvedBall drainingGame = physics (ball drainingGame)"
    by (simp add: resolvedBall_def collisions_def w b fl a)
  have res3: "resolvedBall ?g3 = resolvedBall drainingGame"
    by (simp add: resolvedBall_def)
  have lost: "ball_y (resolvedBall drainingGame) > 780" "ball_y (resolvedBall ?g3) > 780"
    by (simp_all add: res3 res p)
  show ?thesis
    using ball_lost_tick [OF inv(1) ses(1) play(1) lost(1)]
      ball_lost_tick [OF inv(2) ses(2) play(2) lost(2)] inv ses play lost
    by (simp add: f)
qed


subsection \<open>The wall bounds, up to the angled walls\<close>

lemma resolvedBall_angledWalls: "resolvedBall g = angledWalls (beforeAngledWalls g)"
  by (simp add: resolvedBall_def beforeAngledWalls_def collisions_def split: prod.splits)

lemma beforeAngledWalls_radius: "ball_radius (beforeAngledWalls g) = ball_radius (ball g)"
  by (auto simp: beforeAngledWalls_def split: prod.splits dest: bumperCollisions_radius)

lemma beforeAngledWalls_box:
  assumes "tableInv g"
  shows "30 \<le> ball_x (beforeAngledWalls g) \<and> ball_x (beforeAngledWalls g) \<le> 370 \<and>
         30 \<le> ball_y (beforeAngledWalls g)"
proof -
  let ?w = "wallCollisions (physics (ball g))"
  let ?fs = "map (updateFlipper (keys g)) (flippers g)"
  obtain r1 b1 s1 where bc: "bumperCollisions (bumpers g) ?w (score g) = (r1, b1, s1)"
    by (metis prod_cases3)
  have gb: "map bumperGeometry (bumpers g) = map bumperGeometry initialBumpers"
    and gf: "map flipperGeometry ?fs = map flipperGeometry initialFlippers"
    and r: "ball_radius (physics (ball g)) = 10"
    using assms by (simp_all add: tableInv_def BALL_RADIUS_def)
  have rw: "ball_radius ?w = 10" using r by simp
  have r1: "ball_radius b1 = 10" using bumperCollisions_radius [OF bc] rw by simp
  have box: "\<forall>bumper\<in>set (bumpers g).
             0 \<le> ball_radius ?w + bumper_radius bumper + 1 \<and>
             69 \<le> bumper_x bumper - (ball_radius ?w + bumper_radius bumper + 1) \<and>
             bumper_x bumper + (ball_radius ?w + bumper_radius bumper + 1) \<le> 331 \<and>
             159 \<le> bumper_y bumper - (ball_radius ?w + bumper_radius bumper + 1) \<and>
             bumper_y bumper + (ball_radius ?w + bumper_radius bumper + 1) \<le> 481"
    using table_bumper_box [OF gb] rw by simp
  have "30 \<le> ball_x b1 \<and> ball_x b1 \<le> 370 \<and> 30 \<le> ball_y b1"
    using bumperCollisions_box [OF box bc] wallCollisions_box [OF r] by auto
  then have "30 \<le> ball_x (flipperCollisions ?fs b1) \<and> ball_x (flipperCollisions ?fs b1) \<le> 370 \<and>
         30 \<le> ball_y (flipperCollisions ?fs b1)"
    using gf r1 by (intro table_flippers_box)
  then show ?thesis by (simp add: beforeAngledWalls_def bc)
qed

lemma gameLoop_resolved:
  assumes "gameState g = Playing" "ball_y (resolvedBall g) \<le> 780"
  shows "ball (gameLoop g) = resolvedBall g"
proof -
  obtain bs' b' sc' where c:
    "collisions (bumpers g) (map (updateFlipper (keys g)) (flippers g)) (physics (ball g)) (score g)
       = (bs', b', sc')"
    by (metis prod_cases3)
  show ?thesis
    using assms(2) by (simp add: gameLoop_playing [OF assms(1) c] resolvedBall_eq [OF c] Let_def)
qed

lemma angledWalls_x:
  assumes "ball_radius b = 10"
  shows "min (ball_x b) 5 \<le> ball_x (angledWalls b)" "ball_x (angledWalls b) \<le> max (ball_x b) 395"
proof -
  let ?c = "checkAngledWall 20 550 100 650 b"
  have r: "0 \<le> ball_radius b + 5" "0 \<le> ball_radius ?c + 5" using assms by simp_all
  have 1: "min (ball_x b) 5 \<le> ball_x ?c \<and> ball_x ?c \<le> max (ball_x b) 395"
    using checkAngledWall_box [OF r(1), of 20 550 100 650] assms by auto
  have 2: "min (ball_x ?c) 5 \<le> ball_x (checkAngledWall 380 550 300 650 ?c)
         \<and> ball_x (checkAngledWall 380 550 300 650 ?c) \<le> max (ball_x ?c) 395"
    using checkAngledWall_box [OF r(2), of 380 550 300 650] assms by auto
  show "min (ball_x b) 5 \<le> ball_x (angledWalls b)" "ball_x (angledWalls b) \<le> max (ball_x b) 395"
    using 1 2 by (auto simp: angledWalls_def)
qed


subsection \<open>Ticks in which nothing is hit\<close>

lemma quiet_tick:
  assumes inv: "tableInv g" and play: "gameState g = Playing"
    and w: "wallCollisions (physics (ball g)) = b"
    and bq: "481 \<le> ball_y b \<or> ball_y b \<le> 159 \<or> ball_x b \<le> 69 \<or> 331 \<le> ball_x b"
    and fq: "ball_y b \<le> 592 \<or> 768 \<le> ball_y b \<or> ball_x b \<le> 32 \<or> 368 \<le> ball_x b"
    and aq: "angledWalls b = b"
    and y: "ball_y b \<le> 780"
  shows "resolvedBall g = b" "ball (gameLoop g) = b" "gameState (gameLoop g) = Playing"
    "keys (gameLoop g) = keys g"
proof -
  let ?fs = "map (updateFlipper (keys g)) (flippers g)"
  have gb: "map bumperGeometry (bumpers g) = map bumperGeometry initialBumpers"
    and gf: "map flipperGeometry ?fs = map flipperGeometry initialFlippers"
    and r: "ball_radius (physics (ball g)) = 10"
    using inv by (simp_all add: tableInv_def BALL_RADIUS_def)
  have rb: "ball_radius b = 10" using r w by (metis wallCollisions_radius)
  have 1: "bumperCollisions (bumpers g) b (score g) = (bumpers g, b, score g)"
    using gb rb bq by (rule table_bumpers_quiet)
  have 2: "flipperCollisions ?fs b = b"
    using gf rb fq by (rule table_flippers_quiet)
  have c: "collisions (bumpers g) ?fs (physics (ball g)) (score g) = (bumpers g, b, score g)"
    by (simp add: collisions_def w 1 2 aq)
  show "resolvedBall g = b" by (rule resolvedBall_eq [OF c])
  show "ball (gameLoop g) = b" "gameState (gameLoop g) = Playing" "keys (gameLoop g) = keys g"
    using y play by (simp_all add: gameLoop_playing [OF play c] Let_def)
qed

lemma angledWall_far_x:
  assumes "ball_radius b + 3 \<le> \<bar>ball_x b - wallClosestX b x1 y1 x2 y2\<bar>"
  shows "checkAngledWall x1 y1 x2 y2 b = b"
  using assms wallDist_ge(1) [of b x1 y1 x2 y2] by (simp add: checkAngledWall_def)

lemma reachable_ticks: "reachable g \<Longrightarrow> reachable ((gameLoop ^^ n) g)"
proof (induction n)
  case 0
  then show ?case by simp
next
  case (Suc n)
  then show ?case using reachable.event [of "(gameLoop ^^ n) g" Tick] by simp
qed

lemma launching_ticks_ball:
  assumes "gameState g = Launching" "'' '' \<in> keys g"
  shows "ball ((gameLoop ^^ n) g) = ball g \<and> gameState ((gameLoop ^^ n) g) = Launching
       \<and> keys ((gameLoop ^^ n) g) = keys g"
proof (induction n)
  case 0
  then show ?case using assms by simp
next
  case (Suc n)
  then show ?case by (simp add: gameLoop_not_playing updateLaunchPower_def)
qed


subsection \<open>A launch at power 90\<close>

lemma armed_ball:
  "ball (handleKeyDown '' '' (initialGame None))
     = \<lparr>ball_x = 380, ball_y = 650, ball_vx = 0, ball_vy = 0, ball_radius = 10\<rparr>"
  "keys (handleKeyDown '' '' (initialGame None)) = {'' ''}"
  by (simp_all add: handleKeyDown_def initialGame_def startGame_def resetBall_def Let_def
      BALL_RADIUS_def)

lemma reachable_power90Released: "reachable power90Released"
proof -
  have "reachable (handleKeyDown '' '' (initialGame None))"
    using reachable.event [OF reachable.mount, of "KeyDown '' ''" None] by simp
  then have "reachable ((gameLoop ^^ 45) (handleKeyDown '' '' (initialGame None)))"
    by (rule reachable_ticks)
  then show ?thesis
    unfolding power90Released_def
    using reachable.event [of "(gameLoop ^^ 45) (handleKeyDown '' '' (initialGame None))" "KeyUp '' ''"]
    by simp
qed

lemma power90Released_fields:
  "gameState power90Released = Playing"
  "ball power90Released = \<lparr>ball_x = 380, ball_y = 650, ball_vx = - 2, ball_vy = - 27, ball_radius = 10\<rparr>"
proof -
  let ?armed = "handleKeyDown '' '' (initialGame None)"
  let ?charged = "(gameLoop ^^ 45) ?armed"
  have p: "launchPower ?charged = 90" "gameState ?charged = Launching"
    using launching_ticks [OF armed_fields, of 45] by simp_all
  have b: "ball ?charged = ball ?armed"
    using launching_ticks_ball [OF armed_fields(1,2), of 45] by simp
  show "gameState power90Released = Playing"
    "ball power90Released = \<lparr>ball_x = 380, ball_y = 650, ball_vx = - 2, ball_vy = - 27, ball_radius = 10\<rparr>"
    by (simp_all add: power90Released_def handleKeyUp_def Let_def p b armed_ball)
qed

lemma power90_tick1:
  "gameState (gameLoop power90Released) = Playing"
  "ball (gameLoop power90Released)
     = \<lparr>ball_x = 370, ball_y = 623.28425, ball_vx = - 1.592, ball_vy = - 26.71575, ball_radius = 10\<rparr>"
proof -
  define b :: Ball where
    "b = \<lparr>ball_x = 370, ball_y = 623.28425, ball_vx = - 1.592, ball_vy = - 26.71575, ball_radius = 10\<rparr>"
  have f: "ball_x b = 370" "ball_y b = 623.28425" "ball_radius b = 10" by (simp_all add: b_def)
  have inv: "tableInv power90Released" by (rule reachable_tableInv [OF reachable_power90Released])
  have w: "wallCollisions (physics (ball power90Released)) = b"
    by (simp add: power90Released_fields physics_def wallCollisions_def Let_def GRAVITY_def
        FRICTION_def b_def)
  have l: "checkAngledWall 20 550 100 650 b = b"
    by (rule wall_far) (simp add: f)
  have cx: "wallClosestX b 380 550 300 650 = 2790863 / 8200"
    by (simp add: wallClosestX_def segmentT_def segmentDenominator_def f)
  have r: "checkAngledWall 380 550 300 650 b = b"
    by (rule angledWall_far_x) (simp add: cx f)
  have a: "angledWalls b = b" by (simp add: angledWalls_def l r)
  note q = quiet_tick [OF inv power90Released_fields(1) w _ _ a]
  show "gameState (gameLoop power90Released) = Playing"
    by (rule q(3)) (simp_all add: f)
  have "ball (gameLoop power90Released) = b"
    by (rule q(2)) (simp_all add: f)
  then show "ball (gameLoop power90Released)
     = \<lparr>ball_x = 370, ball_y = 623.28425, ball_vx = - 1.592, ball_vy = - 26.71575, ball_radius = 10\<rparr>"
    by (simp add: b_def)
qed

lemma power90_tick2:
  "gameState (gameLoop (gameLoop power90Released)) = Playing"
  "ball (gameLoop (gameLoop power90Released))
     = \<lparr>ball_x = 368.41596, ball_y = 596.85132875, ball_vx = - 1.58404, ball_vy = - 26.43292125,
        ball_radius = 10\<rparr>"
proof -
  define b :: Ball where
    "b = \<lparr>ball_x = 368.41596, ball_y = 596.85132875, ball_vx = - 1.58404, ball_vy = - 26.43292125,
          ball_radius = 10\<rparr>"
  have f: "ball_x b = 368.41596" "ball_y b = 596.85132875" "ball_radius b = 10"
    by (simp_all add: b_def)
  have "reachable (gameLoop power90Released)"
    using reachable.event [OF reachable_power90Released, of Tick] by simp
  then have inv: "tableInv (gameLoop power90Released)" by (rule reachable_tableInv)
  have w: "wallCollisions (physics (ball (gameLoop power90Released))) = b"
    by (simp add: power90_tick1 physics_def wallCollisions_def Let_def GRAVITY_def
        FRICTION_def b_def)
  have l: "checkAngledWall 20 550 100 650 b = b"
    by (rule wall_far) (simp add: f)
  have cx: "wallClosestX b 380 550 300 650 = 2891525757 / 8200000"
    by (simp add: wallClosestX_def segmentT_def segmentDenominator_def f)
  have r: "checkAngledWall 380 550 300 650 b = b"
    by (rule angledWall_far_x) (simp add: cx f)
  have a: "angledWalls b = b" by (simp add: angledWalls_def l r)
  note q = quiet_tick [OF inv power90_tick1(1) w _ _ a]
  show "gameState (gameLoop (gameLoop power90Released)) = Playing"
    by (rule q(3)) (simp_all add: f)
  have "ball (gameLoop (gameLoop power90Released)) = b"
    by (rule q(2)) (simp_all add: f)
  then show "ball (gameLoop (gameLoop power90Released))
     = \<lparr>ball_x = 368.41596, ball_y = 596.85132875, ball_vx = - 1.58404, ball_vy = - 26.43292125,
        ball_radius = 10\<rparr>"
    by (simp add: b_def)
qed

lemma power90Game_eq: "power90Game = gameLoop (gameLoop power90Released)"
  by (simp add: power90Game_def numeral_2_eq_2)

lemma reachable_power90Game: "reachable power90Game"
  unfolding power90Game_def by (rule reachable_ticks [OF reachable_power90Released])

lemma power90_tick3:
  "beforeAngledWalls power90Game
     = \<lparr>ball_x = 366.8398402, ball_y = 570.69982210625, ball_vx = - 1.5761198,
        ball_vy = - 26.15150664375, ball_radius = 10\<rparr>"
proof -
  define b :: Ball where
    "b = \<lparr>ball_x = 366.8398402, ball_y = 570.69982210625, ball_vx = - 1.5761198,
        ball_vy = - 26.15150664375, ball_radius = 10\<rparr>"
  have f: "ball_x b = 366.8398402" "ball_y b = 570.69982210625" "ball_radius b = 10"
    by (simp_all add: b_def)
  have inv: "tableInv power90Game" by (rule reachable_tableInv [OF reachable_power90Game])
  have gb: "map bumperGeometry (bumpers power90Game) = map bumperGeometry initialBumpers"
    and gf: "map flipperGeometry (map (updateFlipper (keys power90Game)) (flippers power90Game))
               = map flipperGeometry initialFlippers"
    using inv by (simp_all add: tableInv_def)
  have w: "wallCollisions (physics (ball power90Game)) = b"
    by (simp add: power90Game_eq power90_tick2 physics_def wallCollisions_def Let_def GRAVITY_def
        FRICTION_def b_def)
  have 1: "bumperCollisions (bumpers power90Game) b (score power90Game)
             = (bumpers power90Game, b, score power90Game)"
    using gb by (rule table_bumpers_quiet) (simp_all add: f)
  have 2: "flipperCollisions (map (updateFlipper (keys power90Game)) (flippers power90Game)) b = b"
    using gf by (rule table_flippers_quiet) (simp_all add: f)
  have "beforeAngledWalls power90Game = b"
    by (simp add: beforeAngledWalls_def w 1 2)
  then show ?thesis by (simp add: b_def)
qed





subsection \<open>A tick in which a flipper is hit\<close>

lemma tableInv_two_flippers:
  assumes "tableInv g"
  shows "flippers g = [flippers g ! 0, flippers g ! 1]"
proof -
  have "length (map flipperGeometry (flippers g)) = length (map flipperGeometry initialFlippers)"
    using assms by (simp only: tableInv_def)
  then have "length (flippers g) = 2" by (simp add: initialFlippers_def)
  then show ?thesis
    by (cases "flippers g"; cases "tl (flippers g)") auto
qed

lemma beforeAngledWalls_stages:
  assumes "tableInv g"
  shows "tickFlippers g = [updateFlipper (keys g) (flippers g ! 0), updateFlipper (keys g) (flippers g ! 1)]"
    and "beforeAngledWalls g =
      flipperCollision (flipperCollision (afterBumpers g) (tickFlippers g ! 0)) (tickFlippers g ! 1)"
proof -
  obtain f0 f1 where f: "flippers g = [f0, f1]"
    using tableInv_two_flippers [OF assms] by metis
  show "tickFlippers g = [updateFlipper (keys g) (flippers g ! 0), updateFlipper (keys g) (flippers g ! 1)]"
    by (simp add: tickFlippers_def f)
  show "beforeAngledWalls g =
      flipperCollision (flipperCollision (afterBumpers g) (tickFlippers g ! 0)) (tickFlippers g ! 1)"
    by (simp add: beforeAngledWalls_def afterBumpers_def tickFlippers_def f flipperCollisions_def
        split: prod.splits)
qed

lemma gameLoop_ball:
  assumes "gameState g = Playing"
  shows "ball (gameLoop g) =
           (if ball_y (resolvedBall g) > 780 \<and> 1 < ballsLeft g
            then \<lparr>ball_x = 380, ball_y = 650, ball_vx = 0, ball_vy = 0, ball_radius = BALL_RADIUS\<rparr>
            else resolvedBall g)"
proof -
  obtain bs' b' sc' where c:
    "collisions (bumpers g) (map (updateFlipper (keys g)) (flippers g)) (physics (ball g)) (score g)
       = (bs', b', sc')"
    by (metis prod_cases3)
  show ?thesis
    by (simp add: gameLoop_playing [OF assms c] resolvedBall_eq [OF c] Let_def ballLost_def
        resetBall_def)
qed

lemma flipperClosest_eq:
  "flipperClosestX b flipper =
     flipper_x flipper
       + max 0 (min 1 (((ball_x b - flipper_x flipper)
                          * (cos (flipper_angle flipper) * flipper_length flipper)
                        + (ball_y b - flipper_y flipper)
                          * (sin (flipper_angle flipper) * flipper_length flipper))
                       / (flipper_length flipper * flipper_length flipper)))
         * (cos (flipper_angle flipper) * flipper_length flipper)"
  "flipperClosestY b flipper =
     flipper_y flipper
       + max 0 (min 1 (((ball_x b - flipper_x flipper)
                          * (cos (flipper_angle flipper) * flipper_length flipper)
                        + (ball_y b - flipper_y flipper)
                          * (sin (flipper_angle flipper) * flipper_length flipper))
                       / (flipper_length flipper * flipper_length flipper)))
         * (sin (flipper_angle flipper) * flipper_length flipper)"
proof -
  have d: "flipperDx flipper = cos (flipper_angle flipper) * flipper_length flipper"
    "flipperDy flipper = sin (flipper_angle flipper) * flipper_length flipper"
    by (simp_all add: flipperDx_def flipperDy_def)
  show "flipperClosestX b flipper =
     flipper_x flipper
       + max 0 (min 1 (((ball_x b - flipper_x flipper)
                          * (cos (flipper_angle flipper) * flipper_length flipper)
                        + (ball_y b - flipper_y flipper)
                          * (sin (flipper_angle flipper) * flipper_length flipper))
                       / (flipper_length flipper * flipper_length flipper)))
         * (cos (flipper_angle flipper) * flipper_length flipper)"
    unfolding flipperClosestX_def segmentT_def flipper_denominator by (simp only: d)
  show "flipperClosestY b flipper =
     flipper_y flipper
       + max 0 (min 1 (((ball_x b - flipper_x flipper)
                          * (cos (flipper_angle flipper) * flipper_length flipper)
                        + (ball_y b - flipper_y flipper)
                          * (sin (flipper_angle flipper) * flipper_length flipper))
                       / (flipper_length flipper * flipper_length flipper)))
         * (sin (flipper_angle flipper) * flipper_length flipper)"
    unfolding flipperClosestY_def segmentT_def flipper_denominator by (simp only: d)
qed

lemma unit_normal:
  fixes x y :: real
  shows "0 < sqrt (x * x + y * y) \<Longrightarrow>
           cos (atan2 y x) = x / sqrt (x * x + y * y) \<and> sin (atan2 y x) = y / sqrt (x * x + y * y)"
    and "sqrt (x * x + y * y) = 0 \<Longrightarrow> cos (atan2 y x) = 1 \<and> sin (atan2 y x) = 0"
proof -
  show "cos (atan2 y x) = x / sqrt (x * x + y * y) \<and> sin (atan2 y x) = y / sqrt (x * x + y * y)"
    if "0 < sqrt (x * x + y * y)"
  proof -
    have "x \<noteq> 0 \<or> y \<noteq> 0" using that by auto
    then show ?thesis using cos_atan2 sin_atan2 by blast
  qed
  show "cos (atan2 y x) = 1 \<and> sin (atan2 y x) = 0" if "sqrt (x * x + y * y) = 0"
  proof -
    have "x * x + y * y = 0" using that by simp
    then have "x = 0 \<and> y = 0"
      by (metis add_nonneg_eq_0_iff mult_eq_0_iff zero_le_square)
    then show ?thesis by (simp add: atan2_origin)
  qed
qed

lemma flipperCollision_stage:
  fixes b :: Ball and flipper :: Flipper
  defines "cx \<equiv> flipperClosestX b flipper" and "cy \<equiv> flipperClosestY b flipper"
  defines "dst \<equiv> sqrt ((ball_x b - cx) * (ball_x b - cx) + (ball_y b - cy) * (ball_y b - cy))"
  defines "n \<equiv> atan2 (ball_y b - cy) (ball_x b - cx)"
  defines "speed \<equiv> (if \<bar>flipper_targetAngle flipper - flipper_angle flipper\<bar> > 0.1 then 15 else 5 :: real)"
  defines "b' \<equiv> flipperCollision b flipper"
  shows "flipperDist b flipper = dst"
    and "\<not> dst < ball_radius b + 8 \<Longrightarrow> b' = b"
    and "dst < ball_radius b + 8 \<Longrightarrow>
           b' = b\<lparr>ball_vx := speed * cos n, ball_vy := speed * sin n - 3,
                 ball_x := cx + (ball_radius b + 10) * cos n,
                 ball_y := cy + (ball_radius b + 10) * sin n\<rparr>"
    and "0 < dst \<Longrightarrow> cos n = (ball_x b - cx) / dst \<and> sin n = (ball_y b - cy) / dst"
    and "dst = 0 \<Longrightarrow> cos n = 1 \<and> sin n = 0"
    and "dst < ball_radius b + 8 \<Longrightarrow>
           sqrt (ball_vx b' * ball_vx b' + (ball_vy b' + 3) * (ball_vy b' + 3)) = speed"
    and "dst < ball_radius b + 8 \<Longrightarrow>
           sqrt ((ball_x b' - cx) * (ball_x b' - cx) + (ball_y b' - cy) * (ball_y b' - cy))
             = ball_radius b + 10"
proof -
  show d: "flipperDist b flipper = dst"
    by (simp add: flipperDist_def Let_def dst_def cx_def cy_def)
  show "b' = b" if "\<not> dst < ball_radius b + 8"
    using that by (simp add: b'_def flipperCollision_def d)
  have e: "b' = b\<lparr>ball_vx := speed * cos n, ball_vy := speed * sin n - 3,
                 ball_x := cx + (ball_radius b + 10) * cos n,
                 ball_y := cy + (ball_radius b + 10) * sin n\<rparr>" if "dst < ball_radius b + 8"
    using that
    by (simp add: b'_def flipperCollision_def d Let_def flipperNormalAngle_def flipperBoost_def
        n_def cx_def cy_def speed_def mult.commute)
  then show "dst < ball_radius b + 8 \<Longrightarrow>
           b' = b\<lparr>ball_vx := speed * cos n, ball_vy := speed * sin n - 3,
                 ball_x := cx + (ball_radius b + 10) * cos n,
                 ball_y := cy + (ball_radius b + 10) * sin n\<rparr>" .
  show "0 < dst \<Longrightarrow> cos n = (ball_x b - cx) / dst \<and> sin n = (ball_y b - cy) / dst"
    unfolding dst_def n_def by (rule unit_normal(1))
  show "dst = 0 \<Longrightarrow> cos n = 1 \<and> sin n = 0"
    unfolding dst_def n_def by (rule unit_normal(2))
  have s0: "0 \<le> speed" by (simp add: speed_def)
  show "sqrt (ball_vx b' * ball_vx b' + (ball_vy b' + 3) * (ball_vy b' + 3)) = speed"
    if "dst < ball_radius b + 8"
    using sqrt_scaled_unit [OF s0, of n] by (simp add: e [OF that] mult.commute)
  show "sqrt ((ball_x b' - cx) * (ball_x b' - cx) + (ball_y b' - cy) * (ball_y b' - cy))
             = ball_radius b + 10" if "dst < ball_radius b + 8"
  proof -
    have "0 \<le> dst" by (simp add: dst_def)
    then have "0 \<le> ball_radius b + 10" using that by linarith
    from sqrt_scaled_unit [OF this, of n] show ?thesis
      by (simp add: e [OF that] mult.commute)
  qed
qed


text \<open>
  C2: in a playing tick the ball passes the two flippers in turn, the left one first, each
  seeing the ball as the checks before it left it; the angled walls come after, and the ball
  the tick ends with is the resolved one unless the ball is lost with balls to spare. At a
  flipper, the closest point is the pivot plus \<open>t\<close> times \<open>(cos angle, sin angle) * length\<close>, \<open>t\<close> the
  projection parameter clamped to \<open>[0, 1]\<close>, and the contact normal is the angle
  \<open>atan2 (ball - closest point)\<close>, whose unit vector is \<open>(ball - closest point) / distance\<close> (and
  \<open>(1, 0)\<close> when the ball's centre is the closest point). A ball at \<open>radius + 8\<close> or more from the
  closest point is left as it is. A ball within \<open>radius + 8\<close> gets the velocity 15 (if
  \<open>\<bar>targetAngle - angle\<bar> > 0.1\<close>) or 5 times the unit normal, minus 3 on the vertical component,
  and is put at distance \<open>radius + 10\<close> from the closest point along the normal.
\<close>

theorem flipper_hit_tick:
  assumes "tableInv g" "gameState g = Playing"
  shows "tickFlippers g
           = [updateFlipper (keys g) (flippers g ! 0), updateFlipper (keys g) (flippers g ! 1)] \<and>
         beforeAngledWalls g =
           flipperCollision (flipperCollision (afterBumpers g) (tickFlippers g ! 0))
             (tickFlippers g ! 1) \<and>
         resolvedBall g = angledWalls (beforeAngledWalls g) \<and>
         ball (gameLoop g) =
           (if ball_y (resolvedBall g) > 780 \<and> 1 < ballsLeft g
            then \<lparr>ball_x = 380, ball_y = 650, ball_vx = 0, ball_vy = 0, ball_radius = BALL_RADIUS\<rparr>
            else resolvedBall g) \<and>
         (let px = flipper_x flipper;
              py = flipper_y flipper;
              len = flipper_length flipper;
              angle = flipper_angle flipper;
              t = max 0 (min 1 (((ball_x b - px) * (cos angle * len)
                                 + (ball_y b - py) * (sin angle * len)) / (len * len)));
              cx = px + t * (cos angle * len);
              cy = py + t * (sin angle * len);
              dst = sqrt ((ball_x b - cx) * (ball_x b - cx) + (ball_y b - cy) * (ball_y b - cy));
              n = atan2 (ball_y b - cy) (ball_x b - cx);
              speed = (if \<bar>flipper_targetAngle flipper - angle\<bar> > 0.1 then 15 else 5);
              b' = flipperCollision b flipper
          in flipperClosestX b flipper = cx \<and>
             flipperClosestY b flipper = cy \<and>
             flipperDist b flipper = dst \<and>
             flipperNormalAngle b flipper = n \<and>
             (\<not> dst < ball_radius b + 8 \<longrightarrow> b' = b) \<and>
             (dst < ball_radius b + 8 \<longrightarrow>
                b' = b\<lparr>ball_vx := speed * cos n, ball_vy := speed * sin n - 3,
                      ball_x := cx + (ball_radius b + 10) * cos n,
                      ball_y := cy + (ball_radius b + 10) * sin n\<rparr> \<and>
                (0 < dst \<longrightarrow> cos n = (ball_x b - cx) / dst \<and> sin n = (ball_y b - cy) / dst) \<and>
                (dst = 0 \<longrightarrow> cos n = 1 \<and> sin n = 0) \<and>
                sqrt (ball_vx b' * ball_vx b' + (ball_vy b' + 3) * (ball_vy b' + 3)) = speed \<and>
                sqrt ((ball_x b' - cx) * (ball_x b' - cx) + (ball_y b' - cy) * (ball_y b' - cy))
                  = ball_radius b + 10))"
proof -
  note s = flipperCollision_stage [of b flipper]
  have n: "flipperNormalAngle b flipper
             = atan2 (ball_y b - flipperClosestY b flipper) (ball_x b - flipperClosestX b flipper)"
    by (simp add: flipperNormalAngle_def)
  have stage: "let px = flipper_x flipper;
              py = flipper_y flipper;
              len = flipper_length flipper;
              angle = flipper_angle flipper;
              t = max 0 (min 1 (((ball_x b - px) * (cos angle * len)
                                 + (ball_y b - py) * (sin angle * len)) / (len * len)));
              cx = px + t * (cos angle * len);
              cy = py + t * (sin angle * len);
              dst = sqrt ((ball_x b - cx) * (ball_x b - cx) + (ball_y b - cy) * (ball_y b - cy));
              n = atan2 (ball_y b - cy) (ball_x b - cx);
              speed = (if \<bar>flipper_targetAngle flipper - angle\<bar> > 0.1 then 15 else 5);
              b' = flipperCollision b flipper
          in flipperClosestX b flipper = cx \<and>
             flipperClosestY b flipper = cy \<and>
             flipperDist b flipper = dst \<and>
             flipperNormalAngle b flipper = n \<and>
             (\<not> dst < ball_radius b + 8 \<longrightarrow> b' = b) \<and>
             (dst < ball_radius b + 8 \<longrightarrow>
                b' = b\<lparr>ball_vx := speed * cos n, ball_vy := speed * sin n - 3,
                      ball_x := cx + (ball_radius b + 10) * cos n,
                      ball_y := cy + (ball_radius b + 10) * sin n\<rparr> \<and>
                (0 < dst \<longrightarrow> cos n = (ball_x b - cx) / dst \<and> sin n = (ball_y b - cy) / dst) \<and>
                (dst = 0 \<longrightarrow> cos n = 1 \<and> sin n = 0) \<and>
                sqrt (ball_vx b' * ball_vx b' + (ball_vy b' + 3) * (ball_vy b' + 3)) = speed \<and>
                sqrt ((ball_x b' - cx) * (ball_x b' - cx) + (ball_y b' - cy) * (ball_y b' - cy))
                  = ball_radius b + 10)"
    unfolding Let_def flipperClosest_eq [of b flipper, symmetric]
    using s n by (intro conjI impI) blast+
  show ?thesis
    using beforeAngledWalls_stages [OF assms(1)] resolvedBall_angledWalls [of g]
      gameLoop_ball [OF assms(2)] stage
    by (intro conjI)
qed

lemma z_lower: "toLowerCase ''z'' = ''z''"
  by (simp add: toLowerCase_def)

lemma sqrt_225: "sqrt 225 = 15"
  using real_sqrt_abs [of 15] by simp

lemma swingingGame_fields:
  "gameState swingingGame = Playing" "keys swingingGame = {''z''}"
  "flippers swingingGame = initialFlippers" "bumpers swingingGame = initialBumpers"
  "ball swingingGame = \<lparr>ball_x = 111, ball_y = 668, ball_vx = 0, ball_vy = - 0.15, ball_radius = 10\<rparr>"
  "ballsLeft swingingGame = 3" "tableInv swingingGame"
proof -
  show "gameState swingingGame = Playing" "keys swingingGame = {''z''}"
    "flippers swingingGame = initialFlippers" "bumpers swingingGame = initialBumpers"
    "ball swingingGame = \<lparr>ball_x = 111, ball_y = 668, ball_vx = 0, ball_vy = - 0.15, ball_radius = 10\<rparr>"
    "ballsLeft swingingGame = 3"
    by (simp_all add: swingingGame_def handleKeyDown_def Let_def z_lower launchedGame_fields
        launchedGame_table)
  have "tableInv (handleKeyDown ''z'' launchedGame)"
    by (rule tableInv_handleKeyDown [OF reachable_tableInv [OF reachable_launchedGame]])
  then show "tableInv swingingGame"
    by (simp add: tableInv_def swingingGame_def BALL_RADIUS_def)
qed

theorem flipper_hit_tick_witness:
  "tableInv swingingGame \<and> gameState swingingGame = Playing \<and>
   afterBumpers swingingGame
     = \<lparr>ball_x = 111, ball_y = 668, ball_vx = 0, ball_vy = 0, ball_radius = 10\<rparr> \<and>
   flipper_angle (tickFlippers swingingGame ! 0) = 0.085 \<and>
   flipper_targetAngle (tickFlippers swingingGame ! 0) = - 0.5 \<and>
   flipperClosestX (afterBumpers swingingGame) (tickFlippers swingingGame ! 0) = 120 \<and>
   flipperClosestY (afterBumpers swingingGame) (tickFlippers swingingGame ! 0) = 680 \<and>
   flipperDist (afterBumpers swingingGame) (tickFlippers swingingGame ! 0) = 15 \<and>
   ball (gameLoop swingingGame)
     = \<lparr>ball_x = 108, ball_y = 664, ball_vx = - 9, ball_vy = - 15, ball_radius = 10\<rparr>"
proof -
  define b0 :: Ball where
    "b0 = \<lparr>ball_x = 111, ball_y = 668, ball_vx = 0, ball_vy = 0, ball_radius = 10\<rparr>"
  define fl where "fl = tickFlippers swingingGame ! 0"
  define fr where "fr = tickFlippers swingingGame ! 1"
  define b1 :: Ball where
    "b1 = \<lparr>ball_x = 108, ball_y = 664, ball_vx = - 9, ball_vy = - 15, ball_radius = 10\<rparr>"
  note g = swingingGame_fields
  have f0: "ball_x b0 = 111" "ball_y b0 = 668" "ball_radius b0 = 10" "ball_vx b0 = 0" "ball_vy b0 = 0"
    by (simp_all add: b0_def)
  have f1: "ball_x b1 = 108" "ball_y b1 = 664" "ball_radius b1 = 10"
    by (simp_all add: b1_def)
  have w: "wallCollisions (physics (ball swingingGame)) = b0"
    by (simp add: g physics_def wallCollisions_def Let_def GRAVITY_def FRICTION_def b0_def)
  have bq: "bumperCollisions (bumpers swingingGame) b0 (score swingingGame)
             = (bumpers swingingGame, b0, score swingingGame)"
    by (rule table_bumpers_quiet) (simp_all add: g f0)
  have ab: "afterBumpers swingingGame = b0"
    by (simp add: afterBumpers_def w bq)
  have l: "flipper_x fl = 120" "flipper_y fl = 680" "flipper_length fl = 70"
    "flipper_angle fl = 0.085" "flipper_targetAngle fl = - 0.5"
    by (simp_all add: fl_def tickFlippers_def g initialFlippers_def updateFlipper_def Let_def
        FLIPPER_SPEED_def)
  have r: "flipper_x fr = 280" "flipper_y fr = 680" "flipper_length fr = 70"
    by (simp_all add: fr_def tickFlippers_def g initialFlippers_def updateFlipper_def Let_def)
  have "(0::real) < 0.085" "(0.085::real) < pi / 2" "(0.085::real) < pi"
    using pi_ge_two by simp_all
  then have pos: "0 < cos (0.085::real)" "0 < sin (0.085::real)"
    by (simp_all add: cos_gt_zero sin_gt_zero)
  have "(111 - 120) * (cos (0.085::real) * 70) + (668 - 680) * (sin (0.085::real) * 70) < 0"
    using pos by simp
  then have t: "max 0 (min 1 (((111 - 120) * (cos (0.085::real) * 70)
                  + (668 - 680) * (sin (0.085::real) * 70)) / (70 * 70))) = 0"
    by (simp add: divide_less_0_iff)
  note hit0 = flipper_hit_tick [OF g(7) g(1), where b = b0 and flipper = fl]
  note hit = hit0 [unfolded Let_def l f0 t]
  have c: "flipperClosestX b0 fl = 120" "flipperClosestY b0 fl = 680"
    using hit by simp_all
  have d: "flipperDist b0 fl = 15"
    using hit by (simp add: sqrt_225)
  have cs: "cos (atan2 (- 12) (- 9)) = - (3 / 5 :: real)"
    "sin (atan2 (- 12) (- 9)) = - (4 / 5 :: real)"
    using hit by simp_all
  have e0: "flipperCollision b0 fl =
     b0\<lparr>ball_vx := 15 * cos (atan2 (- 12) (- 9)),
          ball_vy := 15 * sin (atan2 (- 12) (- 9)) - 3,
          ball_x := 120 + 20 * cos (atan2 (- 12) (- 9)),
          ball_y := 680 + 20 * sin (atan2 (- 12) (- 9))\<rparr>"
    using hit by simp
  have e: "flipperCollision b0 fl = b1"
    unfolding e0 cs by (simp add: b0_def b1_def)
  have far: "flipperCollision b1 fr = b1"
    by (rule flipper_far) (simp add: r f1)
  have st: "beforeAngledWalls swingingGame =
           flipperCollision (flipperCollision (afterBumpers swingingGame) (tickFlippers swingingGame ! 0))
             (tickFlippers swingingGame ! 1)"
    by (rule hit0 [THEN conjunct2, THEN conjunct1])
  have bw: "beforeAngledWalls swingingGame = b1"
    unfolding st ab fl_def [symmetric] fr_def [symmetric] e far by (rule refl)
  have aw: "angledWalls b1 = b1"
    by (rule angledWalls_quiet) (simp_all add: f1)
  have res: "resolvedBall swingingGame = b1"
    using hit0 [THEN conjunct2, THEN conjunct2, THEN conjunct1] by (simp only: bw aw)
  have fin0: "ball (gameLoop swingingGame) =
           (if ball_y (resolvedBall swingingGame) > 780 \<and> 1 < ballsLeft swingingGame
            then \<lparr>ball_x = 380, ball_y = 650, ball_vx = 0, ball_vy = 0, ball_radius = BALL_RADIUS\<rparr>
            else resolvedBall swingingGame)"
    by (rule hit0 [THEN conjunct2, THEN conjunct2, THEN conjunct2, THEN conjunct1])
  have fin: "ball (gameLoop swingingGame) = b1"
    unfolding fin0 res by (simp add: f1)
  have "tableInv swingingGame" "gameState swingingGame = Playing" "afterBumpers swingingGame = b0"
    "flipper_angle fl = 0.085" "flipper_targetAngle fl = - 0.5"
    "flipperClosestX b0 fl = 120" "flipperClosestY b0 fl = 680" "flipperDist b0 fl = 15"
    "ball (gameLoop swingingGame) = b1"
    using g(7) g(1) ab l(4,5) c d fin by blast+
  then show ?thesis
    unfolding ab fl_def [symmetric] b0_def [symmetric] b1_def [symmetric] by (intro conjI)
qed

end
